theory Spec2Isabelle
  imports Complex_Main "HOL-Library.Char_ord" "HOL-Library.List_Lexorder"
    "HOL-Library.AList" "HOL-Library.Multiset"
begin

section \<open>JavaScript values and strings\<close>

text \<open>
  The dashboard is TypeScript that runs as JavaScript over data parsed from JSON.
  A value read from a record or from an object literal is one of the following.
  \<open>JInherited k\<close> stands for the member \<open>k\<close> that every object literal inherits
  from \<open>Object.prototype\<close> (a function or, for \<open>__proto__\<close>, the prototype object):
  it is truthy and converts to the number NaN.
  Numbers are modelled as reals; \<open>NaN\<close> is kept apart because a comparator may return it.
  A string is a list of code units below 256, the characters U+0000 to U+00FF (Basic
  Latin and Latin-1 Supplement); \<open>CHR 0xE9\<close> is U+00E9.
\<close>

datatype jsval =
    JUndefined
  | JNull
  | JBool bool
  | JNumber real
  | JString string
  | JArray "jsval list"
  | JObject "(string \<times> jsval) list"
  | JInherited string

datatype jsnumber = Finite real | NaN

datatype error = TypeError

fun truthy :: "jsval \<Rightarrow> bool" where
  "truthy JUndefined = False"
| "truthy JNull = False"
| "truthy (JBool b) = b"
| "truthy (JNumber n) = (n \<noteq> 0)"
| "truthy (JString s) = (s \<noteq> [])"
| "truthy (JArray xs) = True"
| "truthy (JObject ps) = True"
| "truthy (JInherited k) = True"

definition isNullish :: "jsval \<Rightarrow> bool" where
  "isNullish v = (v = JUndefined \<or> v = JNull)"

text \<open>
  Case conversion as the Unicode tables give it for these characters. The letters with
  a small form are \<open>A\<close> to \<open>Z\<close> and U+00C0 to U+00DE without the multiplication sign
  U+00D7; the small form is 32 code units higher. \<open>toLowerCase\<close> works character by
  character and stays in the range.
\<close>

definition upperLetters :: string where
  "upperLetters =
     ''ABCDEFGHIJKLMNOPQRSTUVWXYZ'' @
     [CHR 0xC0, CHR 0xC1, CHR 0xC2, CHR 0xC3, CHR 0xC4, CHR 0xC5, CHR 0xC6,
      CHR 0xC7, CHR 0xC8, CHR 0xC9, CHR 0xCA, CHR 0xCB, CHR 0xCC, CHR 0xCD,
      CHR 0xCE, CHR 0xCF, CHR 0xD0, CHR 0xD1, CHR 0xD2, CHR 0xD3, CHR 0xD4,
      CHR 0xD5, CHR 0xD6, CHR 0xD8, CHR 0xD9, CHR 0xDA, CHR 0xDB, CHR 0xDC,
      CHR 0xDD, CHR 0xDE]"

definition lowerLetters :: string where
  "lowerLetters =
     ''abcdefghijklmnopqrstuvwxyz'' @
     [CHR 0xE0, CHR 0xE1, CHR 0xE2, CHR 0xE3, CHR 0xE4, CHR 0xE5, CHR 0xE6,
      CHR 0xE7, CHR 0xE8, CHR 0xE9, CHR 0xEA, CHR 0xEB, CHR 0xEC, CHR 0xED,
      CHR 0xEE, CHR 0xEF, CHR 0xF0, CHR 0xF1, CHR 0xF2, CHR 0xF3, CHR 0xF4,
      CHR 0xF5, CHR 0xF6, CHR 0xF8, CHR 0xF9, CHR 0xFA, CHR 0xFB, CHR 0xFC,
      CHR 0xFD, CHR 0xFE]"

definition toLowerChar :: "char \<Rightarrow> char" where
  "toLowerChar c = (case map_of (zip upperLetters lowerLetters) c of Some d \<Rightarrow> d | None \<Rightarrow> c)"

definition toLowerCase :: "string \<Rightarrow> string" where
  "toLowerCase s = map toLowerChar s"

text \<open>
  \<open>toUpperCase\<close> does not stay in the range and does not keep the length: the capital
  of the sharp s U+00DF is the two letters \<open>SS\<close>, and the capitals of the micro sign
  U+00B5 and of U+00FF are U+039C and U+0178, which are not code units below 256. For
  these two the model gives no result (\<open>None\<close>).
\<close>

definition toUpperChar :: "char \<Rightarrow> string option" where
  "toUpperChar c =
     (if c = CHR 0xDF then Some ''SS''
      else if c = CHR 0xB5 \<or> c = CHR 0xFF then None
      else case map_of (zip lowerLetters upperLetters) c of
             Some d \<Rightarrow> Some [d]
           | None \<Rightarrow> Some [c])"


text \<open>The characters that \<open>toUpperCase\<close> changes.\<close>

definition smallLetters :: string where
  "smallLetters = lowerLetters @ [CHR 0xDF, CHR 0xB5, CHR 0xFF]"

text \<open>\<open>s.startsWith(t)\<close> and \<open>s.includes(t)\<close>.\<close>

fun startsWith :: "string \<Rightarrow> string \<Rightarrow> bool" where
  "startsWith s [] = True"
| "startsWith [] (c # t) = False"
| "startsWith (x # s) (c # t) = (x = c \<and> startsWith s t)"

fun includes_str :: "string \<Rightarrow> string \<Rightarrow> bool" where
  "includes_str [] t = (t = [])"
| "includes_str (x # s) t = (startsWith (x # s) t \<or> includes_str s t)"



text \<open>
  The members of \<open>Object.prototype\<close>. A lookup \<open>obj[key]\<close> or a test \<open>key in obj\<close>
  on an object literal finds them when \<open>obj\<close> has no own property \<open>key\<close>.
\<close>

definition objectPrototypeMembers :: "string list" where
  "objectPrototypeMembers =
     [''constructor'', ''__defineGetter__'', ''__defineSetter__'', ''hasOwnProperty'',
      ''__lookupGetter__'', ''__lookupSetter__'', ''isPrototypeOf'',
      ''propertyIsEnumerable'', ''toString'', ''valueOf'', ''__proto__'',
      ''toLocaleString'']"

definition memberLookup :: "(string \<times> real) list \<Rightarrow> string \<Rightarrow> jsval" where
  "memberLookup obj key =
     (case map_of obj key of
        Some v \<Rightarrow> JNumber v
      | None \<Rightarrow> if key \<in> set objectPrototypeMembers then JInherited key else JUndefined)"

section \<open>The record type\<close>

text \<open>
  \<open>VulnerabilityData\<close> follows the interface of the source: a present field has its
  declared type. The loader copies source objects without checking them, and the
  processing functions read \<open>package\<close>, \<open>severity\<close> and \<open>kaiStatus\<close> through \<open>?.\<close>, so
  every field but the identifier may be absent; \<open>None\<close> stands for \<open>undefined\<close> and
  \<open>null\<close> alike.
\<close>

record VulnerabilityData =
  vuln_id :: string
  package :: "string option"
  severity :: "string option"
  cvss :: "real option"
  version :: "string option"
  kaiStatus :: "string option"
  riskFactors :: "string list option"
  cve :: "string option"
  description :: "string option"
  timestamp :: "string option"
  groupName :: "string option"
  imageName :: "string option"

definition optString :: "string option \<Rightarrow> jsval" where
  "optString f = (case f of None \<Rightarrow> JUndefined | Some s \<Rightarrow> JString s)"

text \<open>
  \<open>a[field]\<close>: the value of the property named \<open>field\<close>. A record has the properties
  of the interface and, being a plain object, the inherited members; any other name
  reads as \<open>undefined\<close>.
\<close>

definition getField :: "string \<Rightarrow> VulnerabilityData \<Rightarrow> jsval" where
  "getField field a =
     (if field = ''id'' then JString (vuln_id a)
      else if field = ''package'' then optString (package a)
      else if field = ''severity'' then optString (severity a)
      else if field = ''cvss'' then (case cvss a of None \<Rightarrow> JUndefined | Some n \<Rightarrow> JNumber n)
      else if field = ''version'' then optString (version a)
      else if field = ''kaiStatus'' then optString (kaiStatus a)
      else if field = ''riskFactors'' then
        (case riskFactors a of None \<Rightarrow> JUndefined | Some ls \<Rightarrow> JArray (map JString ls))
      else if field = ''cve'' then optString (cve a)
      else if field = ''description'' then optString (description a)
      else if field = ''timestamp'' then optString (timestamp a)
      else if field = ''groupName'' then optString (groupName a)
      else if field = ''imageName'' then optString (imageName a)
      else if field \<in> set objectPrototypeMembers then JInherited field
      else JUndefined)"

section \<open>Metrics: \<open>groupBySeverity\<close>, \<open>calculateRiskFrequency\<close>, \<open>processVulnerabilityData\<close>\<close>

text \<open>
  The accumulator of \<open>groupBySeverity\<close> is the literal
  \<open>{ critical: 0, high: 0, medium: 0, low: 0 }\<close>. \<open>severity in acc\<close> also holds for an
  inherited member, and \<open>acc[severity]++\<close> then stores NaN under that name as an own
  property; \<open>nanMembers\<close> lists these names. Assigning a number to \<open>__proto__\<close> does
  nothing.
\<close>

record SeverityCounts =
  critical :: nat
  high :: nat
  medium :: nat
  low :: nat
  nanMembers :: "string list"

definition inAcc :: "string \<Rightarrow> SeverityCounts \<Rightarrow> bool" where
  "inAcc key acc =
     (key \<in> set [''critical'', ''high'', ''medium'', ''low'']
      \<or> key \<in> set (nanMembers acc) \<or> key \<in> set objectPrototypeMembers)"

definition increment :: "string \<Rightarrow> SeverityCounts \<Rightarrow> SeverityCounts" where
  "increment key acc =
     (if key = ''critical'' then acc\<lparr>critical := critical acc + 1\<rparr>
      else if key = ''high'' then acc\<lparr>high := high acc + 1\<rparr>
      else if key = ''medium'' then acc\<lparr>medium := medium acc + 1\<rparr>
      else if key = ''low'' then acc\<lparr>low := low acc + 1\<rparr>
      else if key = ''__proto__'' then acc
      else acc\<lparr>nanMembers := List.insert key (nanMembers acc)\<rparr>)"

text \<open>
  The callback of \<open>reduce\<close>. \<open>item.severity.toLowerCase()\<close> has no \<open>?.\<close>: on a record
  without a severity it raises a TypeError.
\<close>

definition countSeverity :: "SeverityCounts \<Rightarrow> VulnerabilityData \<Rightarrow> error + SeverityCounts" where
  "countSeverity acc item =
     (case severity item of
        None \<Rightarrow> Inl TypeError
      | Some s \<Rightarrow>
          (let sev = toLowerCase s
           in if inAcc sev acc then Inr (increment sev acc) else Inr acc))"

fun reduceSeverity :: "SeverityCounts \<Rightarrow> VulnerabilityData list \<Rightarrow> error + SeverityCounts" where
  "reduceSeverity acc [] = Inr acc"
| "reduceSeverity acc (item # rest) =
     (case countSeverity acc item of
        Inl e \<Rightarrow> Inl e
      | Inr acc' \<Rightarrow> reduceSeverity acc' rest)"

definition groupBySeverity :: "VulnerabilityData list \<Rightarrow> error + SeverityCounts" where
  "groupBySeverity data =
     reduceSeverity \<lparr>critical = 0, high = 0, medium = 0, low = 0, nanMembers = []\<rparr> data"

text \<open>
  \<open>calculateRiskFrequency\<close>. \<open>(frequencyMap[factor] || 0) + 1\<close> counts an ordinary label;
  for a label that names an inherited member it appends the character \<open>1\<close> to the
  text of that member, and \<open>SourceText n\<close> is that text followed by \<open>n\<close> such
  characters. The branch for a keyed object is not reached by a field of the
  declared type \<open>string[]\<close>.
\<close>

datatype frequency = Count nat | SourceText nat

definition bumpFactor :: "(string \<times> frequency) list \<Rightarrow> string \<Rightarrow> (string \<times> frequency) list" where
  "bumpFactor frequencyMap factor =
     (case map_of frequencyMap factor of
        Some (Count c) \<Rightarrow> AList.update factor (Count (c + 1)) frequencyMap
      | Some (SourceText n) \<Rightarrow> AList.update factor (SourceText (n + 1)) frequencyMap
      | None \<Rightarrow>
          if factor = ''__proto__'' then frequencyMap
          else if factor \<in> set objectPrototypeMembers
          then AList.update factor (SourceText 1) frequencyMap
          else AList.update factor (Count 1) frequencyMap)"

definition calculateRiskFrequency :: "VulnerabilityData list \<Rightarrow> (string \<times> frequency) list" where
  "calculateRiskFrequency data =
     foldl (\<lambda>frequencyMap item.
              case riskFactors item of
                None \<Rightarrow> frequencyMap
              | Some factors \<Rightarrow> foldl bumpFactor frequencyMap factors)
           [] data"

record KaiStatusBreakdown =
  invalid_norisk :: nat
  ai_invalid_norisk :: nat
  other :: nat

record VulnerabilityMetrics =
  total :: nat
  severityDistribution :: SeverityCounts
  riskFactorsFrequency :: "(string \<times> frequency) list"
  kaiStatusBreakdown :: KaiStatusBreakdown

definition processVulnerabilityData :: "VulnerabilityData list \<Rightarrow> error + VulnerabilityMetrics" where
  "processVulnerabilityData data =
     (case groupBySeverity data of
        Inl e \<Rightarrow> Inl e
      | Inr distribution \<Rightarrow>
          Inr \<lparr>total = length data,
               severityDistribution = distribution,
               riskFactorsFrequency = calculateRiskFrequency data,
               kaiStatusBreakdown =
                 \<lparr>invalid_norisk =
                    length (filter (\<lambda>d. kaiStatus d = Some ''invalid - norisk'') data),
                  ai_invalid_norisk =
                    length (filter (\<lambda>d. kaiStatus d = Some ''ai-invalid-norisk'') data),
                  other =
                    length (filter
                      (\<lambda>d. kaiStatus d \<notin> set [Some ''invalid - norisk'', Some ''ai-invalid-norisk''])
                      data)\<rparr>\<rparr>)"

section \<open>Filtering: \<open>searchVulnerabilities\<close> and \<open>filterVulnerabilities\<close>\<close>

text \<open>\<open>item.f?.toLowerCase().includes(term)\<close>: an absent field gives \<open>undefined\<close>, which is falsy.\<close>

definition fieldIncludes :: "string option \<Rightarrow> string \<Rightarrow> bool" where
  "fieldIncludes f term =
     (case f of None \<Rightarrow> False | Some s \<Rightarrow> includes_str (toLowerCase s) term)"

definition matchesTerm :: "string \<Rightarrow> VulnerabilityData \<Rightarrow> bool" where
  "matchesTerm term item =
     (fieldIncludes (package item) term \<or>
      fieldIncludes (severity item) term \<or>
      fieldIncludes (kaiStatus item) term \<or>
      fieldIncludes (cve item) term \<or>
      fieldIncludes (description item) term)"

definition searchVulnerabilities :: "VulnerabilityData list \<Rightarrow> string \<Rightarrow> VulnerabilityData list" where
  "searchVulnerabilities data query =
     (if query = [] then data
      else let term = toLowerCase query in filter (matchesTerm term) data)"

text \<open>The criteria object; each of its four members is optional.\<close>

record Filters =
  searchTerm :: "string option"
  severities :: "string list option"
  riskFactorsF :: "string list option"
  excludeKaiStatus :: "string list option"

text \<open>\<open>if (filters.searchTerm)\<close> and \<open>if (filters.xs && filters.xs.length > 0)\<close>.\<close>

definition activeTerm :: "string option \<Rightarrow> bool" where
  "activeTerm t = (case t of None \<Rightarrow> False | Some s \<Rightarrow> s \<noteq> [])"

definition activeList :: "string list option \<Rightarrow> bool" where
  "activeList c = (case c of None \<Rightarrow> False | Some xs \<Rightarrow> 0 < length xs)"

text \<open>\<open>severitySet.has(item.severity?.toLowerCase() || '')\<close>.\<close>

definition severityPasses :: "string list \<Rightarrow> VulnerabilityData \<Rightarrow> bool" where
  "severityPasses requested item =
     ((case severity item of
         None \<Rightarrow> []
       | Some s \<Rightarrow> if toLowerCase s = [] then [] else toLowerCase s)
      \<in> set (map toLowerCase requested))"

text \<open>
  The callback of the risk-factor filter. A present \<open>riskFactors\<close> of the declared
  type is an array, so \<open>Array.isArray\<close> holds for it.
\<close>

definition riskFactorPasses :: "string list \<Rightarrow> VulnerabilityData \<Rightarrow> bool" where
  "riskFactorPasses requested item =
     (case riskFactors item of
        None \<Rightarrow> False
      | Some factors \<Rightarrow>
          if length factors = 0 then False
          else list_ex (\<lambda>factor. factor \<in> set requested) factors)"

definition kaiStatusPasses :: "string list \<Rightarrow> VulnerabilityData \<Rightarrow> bool" where
  "kaiStatusPasses excluded item =
     (case kaiStatus item of None \<Rightarrow> True | Some s \<Rightarrow> s \<notin> set excluded)"

text \<open>The four steps of \<open>filterVulnerabilities\<close>, in the order of the source.\<close>

definition searchStep :: "string option \<Rightarrow> VulnerabilityData list \<Rightarrow> VulnerabilityData list" where
  "searchStep t filtered =
     (if activeTerm t then searchVulnerabilities filtered (the t) else filtered)"

definition severityStep :: "string list option \<Rightarrow> VulnerabilityData list \<Rightarrow> VulnerabilityData list" where
  "severityStep c filtered =
     (if activeList c then filter (severityPasses (the c)) filtered else filtered)"

definition riskFactorStep :: "string list option \<Rightarrow> VulnerabilityData list \<Rightarrow> VulnerabilityData list" where
  "riskFactorStep c filtered =
     (if activeList c then filter (riskFactorPasses (the c)) filtered else filtered)"

definition kaiStatusStep :: "string list option \<Rightarrow> VulnerabilityData list \<Rightarrow> VulnerabilityData list" where
  "kaiStatusStep c filtered =
     (if activeList c then filter (kaiStatusPasses (the c)) filtered else filtered)"

definition filterVulnerabilities :: "VulnerabilityData list \<Rightarrow> Filters \<Rightarrow> VulnerabilityData list" where
  "filterVulnerabilities data filters =
     kaiStatusStep (excludeKaiStatus filters)
       (riskFactorStep (riskFactorsF filters)
         (severityStep (severities filters)
           (searchStep (searchTerm filters) data)))"

text \<open>
  One criteria object adds a criterion to another: one member that was absent or empty
  is now non-empty, and the other three members are the same.
\<close>

definition addsCriterion :: "Filters \<Rightarrow> Filters \<Rightarrow> bool" where
  "addsCriterion f g =
     ((\<not> activeTerm (searchTerm f) \<and> activeTerm (searchTerm g) \<and>
         severities g = severities f \<and> riskFactorsF g = riskFactorsF f \<and>
         excludeKaiStatus g = excludeKaiStatus f)
      \<or> (\<not> activeList (severities f) \<and> activeList (severities g) \<and>
         searchTerm g = searchTerm f \<and> riskFactorsF g = riskFactorsF f \<and>
         excludeKaiStatus g = excludeKaiStatus f)
      \<or> (\<not> activeList (riskFactorsF f) \<and> activeList (riskFactorsF g) \<and>
         searchTerm g = searchTerm f \<and> severities g = severities f \<and>
         excludeKaiStatus g = excludeKaiStatus f)
      \<or> (\<not> activeList (excludeKaiStatus f) \<and> activeList (excludeKaiStatus g) \<and>
         searchTerm g = searchTerm f \<and> severities g = severities f \<and>
         riskFactorsF g = riskFactorsF f))"

section \<open>Sorting: \<open>Array.prototype.sort\<close> and \<open>sortVulnerabilities\<close>\<close>

text \<open>
  \<open>Array.prototype.sort\<close> belongs to the language. It is stable, it reads a NaN from
  the comparator as \<open>+0\<close>, and for a consistent comparator the standard fixes its
  result. It is modelled as insertion sort from left to right: each element goes in
  front of the first element of the sorted prefix that the comparator puts after it,
  and to the end when there is none.
\<close>

definition sortCompare :: "jsnumber \<Rightarrow> real" where
  "sortCompare v = (case v of NaN \<Rightarrow> 0 | Finite x \<Rightarrow> x)"

fun insertSorted :: "('a \<Rightarrow> 'a \<Rightarrow> jsnumber) \<Rightarrow> 'a \<Rightarrow> 'a list \<Rightarrow> 'a list" where
  "insertSorted comparefn x [] = [x]"
| "insertSorted comparefn x (y # ys) =
     (if sortCompare (comparefn x y) < 0 then x # y # ys
      else y # insertSorted comparefn x ys)"

definition array_sort :: "('a \<Rightarrow> 'a \<Rightarrow> jsnumber) \<Rightarrow> 'a list \<Rightarrow> 'a list" where
  "array_sort comparefn xs = foldl (\<lambda>sorted x. insertSorted comparefn x sorted) [] xs"

text \<open>
  Where the comparator is not consistent, the standard leaves the order to the engine.
  What a merge sort or an insertion sort still guarantees is that two neighbours of
  the output were compared and came out this way round: for neighbours \<open>x\<close>, \<open>y\<close>
  the call on \<open>(x, y)\<close> was not positive or the call on \<open>(y, x)\<close> was not negative.
\<close>

fun justified :: "('a \<Rightarrow> 'a \<Rightarrow> jsnumber) \<Rightarrow> 'a list \<Rightarrow> bool" where
  "justified comparefn [] = True"
| "justified comparefn [x] = True"
| "justified comparefn (x # y # ys) =
     ((sortCompare (comparefn x y) \<le> 0 \<or> sortCompare (comparefn y x) \<ge> 0)
      \<and> justified comparefn (y # ys))"

datatype direction = Asc | Desc

definition SEVERITY_ORDER :: "(string \<times> real) list" where
  "SEVERITY_ORDER = [(''critical'', 4), (''high'', 3), (''medium'', 2), (''low'', 1)]"

text \<open>\<open>v || 0\<close>, and the difference of two such values: a value that is not a number gives NaN.\<close>

definition orZero :: "jsval \<Rightarrow> jsval" where
  "orZero v = (if truthy v then v else JNumber 0)"

fun rankMinus :: "jsval \<Rightarrow> jsval \<Rightarrow> jsnumber" where
  "rankMinus (JNumber x) (JNumber y) = Finite (x - y)"
| "rankMinus v w = NaN"

text \<open>\<open>a.severity?.toLowerCase() || ''\<close> and \<open>a.riskFactors?.length || 0\<close>.\<close>

definition severityKey :: "VulnerabilityData \<Rightarrow> string" where
  "severityKey a = (case severity a of None \<Rightarrow> [] | Some s \<Rightarrow> toLowerCase s)"

definition riskFactorsCount :: "VulnerabilityData \<Rightarrow> real" where
  "riskFactorsCount a = (case riskFactors a of None \<Rightarrow> 0 | Some ls \<Rightarrow> real (length ls))"

text \<open>The comparator that \<open>sortVulnerabilities\<close> passes to \<open>sort\<close>.\<close>

definition sortComparator ::
  "string \<Rightarrow> direction \<Rightarrow> VulnerabilityData \<Rightarrow> VulnerabilityData \<Rightarrow> jsnumber" where
  "sortComparator field dir a b =
     (if field = ''riskFactorsCount'' then
        (let aCount = riskFactorsCount a; bCount = riskFactorsCount b
         in if dir = Asc then Finite (aCount - bCount) else Finite (bCount - aCount))
      else if field = ''severity'' then
        (let aSeverity = orZero (memberLookup SEVERITY_ORDER (severityKey a));
             bSeverity = orZero (memberLookup SEVERITY_ORDER (severityKey b))
         in if dir = Asc then rankMinus aSeverity bSeverity else rankMinus bSeverity aSeverity)
      else
        (let aVal = getField field a; bVal = getField field b
         in if isNullish aVal then Finite 1
            else if isNullish bVal then Finite (- 1)
            else
              (case (aVal, bVal) of
                 (JString aS, JString bS) \<Rightarrow>
                   (let aStr = toLowerCase aS; bStr = toLowerCase bS
                    in if aStr < bStr then (if dir = Asc then Finite (- 1) else Finite 1)
                       else if aStr > bStr then (if dir = Asc then Finite 1 else Finite (- 1))
                       else Finite 0)
               | (JNumber aN, JNumber bN) \<Rightarrow>
                   (if dir = Asc then Finite (aN - bN) else Finite (bN - aN))
               | _ \<Rightarrow> Finite 0)))"

definition sortVulnerabilities ::
  "VulnerabilityData list \<Rightarrow> string \<Rightarrow> direction \<Rightarrow> VulnerabilityData list" where
  "sortVulnerabilities data field dir = array_sort (sortComparator field dir) data"

subsection \<open>The copy of the function in the sort worker\<close>

definition SEVERITY_ORDER_worker :: "(string \<times> real) list" where
  "SEVERITY_ORDER_worker = [(''critical'', 4), (''high'', 3), (''medium'', 2), (''low'', 1)]"

definition sortComparator_worker ::
  "string \<Rightarrow> direction \<Rightarrow> VulnerabilityData \<Rightarrow> VulnerabilityData \<Rightarrow> jsnumber" where
  "sortComparator_worker field dir a b =
     (if field = ''riskFactorsCount'' then
        (let aCount = riskFactorsCount a; bCount = riskFactorsCount b
         in if dir = Asc then Finite (aCount - bCount) else Finite (bCount - aCount))
      else if field = ''severity'' then
        (let aSeverity = orZero (memberLookup SEVERITY_ORDER_worker (severityKey a));
             bSeverity = orZero (memberLookup SEVERITY_ORDER_worker (severityKey b))
         in if dir = Asc then rankMinus aSeverity bSeverity else rankMinus bSeverity aSeverity)
      else
        (let aVal = getField field a; bVal = getField field b
         in if isNullish aVal then Finite 1
            else if isNullish bVal then Finite (- 1)
            else
              (case (aVal, bVal) of
                 (JString aS, JString bS) \<Rightarrow>
                   (let aStr = toLowerCase aS; bStr = toLowerCase bS
                    in if aStr < bStr then (if dir = Asc then Finite (- 1) else Finite 1)
                       else if aStr > bStr then (if dir = Asc then Finite 1 else Finite (- 1))
                       else Finite 0)
               | (JNumber aN, JNumber bN) \<Rightarrow>
                   (if dir = Asc then Finite (aN - bN) else Finite (bN - aN))
               | _ \<Rightarrow> Finite 0)))"

definition sortVulnerabilities_worker ::
  "VulnerabilityData list \<Rightarrow> string \<Rightarrow> direction \<Rightarrow> VulnerabilityData list" where
  "sortVulnerabilities_worker data field dir = array_sort (sortComparator_worker field dir) data"

section \<open>Arrays as references\<close>

text \<open>
  A JavaScript array is an object that is passed by reference. To say what a call does
  to its argument, the arrays live in a store: a reference is an index into the store,
  and a new array takes the next free index. \<open>filter\<close> and the spread \<open>[...data]\<close>
  make a new array; \<open>sort\<close> works in place and returns the reference it was called on.
  The records themselves are not written by any function here.
\<close>

type_synonym store = "VulnerabilityData list list"

definition alloc :: "VulnerabilityData list \<Rightarrow> store \<Rightarrow> nat \<times> store" where
  "alloc xs h = (length h, h @ [xs])"

definition array_filter_ref :: "(VulnerabilityData \<Rightarrow> bool) \<Rightarrow> nat \<Rightarrow> store \<Rightarrow> nat \<times> store" where
  "array_filter_ref p r h = alloc (filter p (h ! r)) h"

definition array_sort_ref ::
  "(VulnerabilityData \<Rightarrow> VulnerabilityData \<Rightarrow> jsnumber) \<Rightarrow> nat \<Rightarrow> store \<Rightarrow> nat \<times> store" where
  "array_sort_ref comparefn r h = (r, h[r := array_sort comparefn (h ! r)])"

definition searchVulnerabilities_ref :: "nat \<Rightarrow> string \<Rightarrow> store \<Rightarrow> nat \<times> store" where
  "searchVulnerabilities_ref data query h =
     (if query = [] then (data, h)
      else let term = toLowerCase query in array_filter_ref (matchesTerm term) data h)"

definition filterVulnerabilities_ref :: "nat \<Rightarrow> Filters \<Rightarrow> store \<Rightarrow> nat \<times> store" where
  "filterVulnerabilities_ref data filters h =
     (let (filtered1, h1) =
            (if activeTerm (searchTerm filters)
             then searchVulnerabilities_ref data (the (searchTerm filters)) h
             else (data, h));
          (filtered2, h2) =
            (if activeList (severities filters)
             then array_filter_ref (severityPasses (the (severities filters))) filtered1 h1
             else (filtered1, h1));
          (filtered3, h3) =
            (if activeList (riskFactorsF filters)
             then array_filter_ref (riskFactorPasses (the (riskFactorsF filters))) filtered2 h2
             else (filtered2, h2));
          (filtered4, h4) =
            (if activeList (excludeKaiStatus filters)
             then array_filter_ref (kaiStatusPasses (the (excludeKaiStatus filters))) filtered3 h3
             else (filtered3, h3))
      in (filtered4, h4))"

definition sortVulnerabilities_ref :: "nat \<Rightarrow> string \<Rightarrow> direction \<Rightarrow> store \<Rightarrow> nat \<times> store" where
  "sortVulnerabilities_ref data field dir h =
     (let (copy, h1) = alloc (h ! data) h
      in array_sort_ref (sortComparator field dir) copy h1)"

definition anyCriterion :: "Filters \<Rightarrow> bool" where
  "anyCriterion filters =
     (activeTerm (searchTerm filters) \<or> activeList (severities filters) \<or>
      activeList (riskFactorsF filters) \<or> activeList (excludeKaiStatus filters))"

section \<open>The comparison list of \<open>MainDashboard\<close>\<close>

definition handleAddToComparison :: "VulnerabilityData \<Rightarrow> VulnerabilityData list \<Rightarrow> VulnerabilityData list" where
  "handleAddToComparison item comparisonList =
     (if find (\<lambda>v. vuln_id v = vuln_id item) comparisonList = None
      then comparisonList @ [item]
      else comparisonList)"

definition handleRemoveFromComparison :: "string \<Rightarrow> VulnerabilityData list \<Rightarrow> VulnerabilityData list" where
  "handleRemoveFromComparison ident comparisonList =
     filter (\<lambda>v. vuln_id v \<noteq> ident) comparisonList"

definition handleClearComparison :: "VulnerabilityData list \<Rightarrow> VulnerabilityData list" where
  "handleClearComparison comparisonList = []"

datatype comparisonEvent =
    AddToComparison VulnerabilityData
  | RemoveFromComparison string
  | ClearComparison

fun handleEvent :: "VulnerabilityData list \<Rightarrow> comparisonEvent \<Rightarrow> VulnerabilityData list" where
  "handleEvent comparisonList (AddToComparison item) = handleAddToComparison item comparisonList"
| "handleEvent comparisonList (RemoveFromComparison ident) =
     handleRemoveFromComparison ident comparisonList"
| "handleEvent comparisonList ClearComparison = handleClearComparison comparisonList"

text \<open>The list starts empty (\<open>useState([])\<close>); each event works on the list of the last render.\<close>

definition comparisonAfter :: "comparisonEvent list \<Rightarrow> VulnerabilityData list" where
  "comparisonAfter events = foldl handleEvent [] events"

section \<open>The loader: identifiers and severities of a flat array\<close>











section \<open>Predicates of the specification and sample records\<close>

text \<open>
  A record's severity matches a canonical name without regard to case, and a record's
  severity is recognized when it matches one of the four names.
\<close>

definition severityIs :: "string \<Rightarrow> VulnerabilityData \<Rightarrow> bool" where
  "severityIs name d = (case severity d of None \<Rightarrow> False | Some s \<Rightarrow> toLowerCase s = name)"

definition recognized :: "VulnerabilityData \<Rightarrow> bool" where
  "recognized d =
     (case severity d of
        None \<Rightarrow> False
      | Some s \<Rightarrow> toLowerCase s \<in> set [''critical'', ''high'', ''medium'', ''low''])"

text \<open>The value of the sort field of a record is \<open>null\<close> or \<open>undefined\<close>.\<close>

definition nullField :: "string \<Rightarrow> VulnerabilityData \<Rightarrow> bool" where
  "nullField field a = isNullish (getField field a)"

fun nullsLast :: "string \<Rightarrow> VulnerabilityData list \<Rightarrow> bool" where
  "nullsLast field [] = True"
| "nullsLast field (x # xs) =
     ((nullField field x \<longrightarrow> list_all (nullField field) xs) \<and> nullsLast field xs)"

text \<open>
  Two records stand in the order of a direction as far as their values go: two strings
  by their lower-case forms and two numbers by size, rising for \<open>Asc\<close> and falling for
  \<open>Desc\<close>; nothing is asked of any other pair of values.
\<close>

definition inOrder :: "string \<Rightarrow> direction \<Rightarrow> VulnerabilityData \<Rightarrow> VulnerabilityData \<Rightarrow> bool" where
  "inOrder field dir a b =
     (case (getField field a, getField field b) of
        (JString s, JString t) \<Rightarrow>
          (if dir = Asc then toLowerCase s \<le> toLowerCase t else toLowerCase t \<le> toLowerCase s)
      | (JNumber x, JNumber y) \<Rightarrow> (if dir = Asc then x \<le> y else y \<le> x)
      | _ \<Rightarrow> True)"

text \<open>The same, with the records that have no value behind all others.\<close>

definition precedes :: "string \<Rightarrow> direction \<Rightarrow> VulnerabilityData \<Rightarrow> VulnerabilityData \<Rightarrow> bool" where
  "precedes field dir a b =
     (nullField field b \<or> (\<not> nullField field a \<and> inOrder field dir a b))"

text \<open>The rank of a severity as the specification gives it: 4, 3, 2, 1, and 0 for the rest.\<close>

definition severityRank :: "VulnerabilityData \<Rightarrow> real" where
  "severityRank a =
     (let key = severityKey a
      in if key = ''critical'' then 4 else if key = ''high'' then 3
         else if key = ''medium'' then 2 else if key = ''low'' then 1 else 0)"

text \<open>A record with an identifier, a severity and a score, and nothing else.\<close>

definition sample :: "string \<Rightarrow> string option \<Rightarrow> real option \<Rightarrow> VulnerabilityData" where
  "sample ident sev score =
     \<lparr>vuln_id = ident, package = None, severity = sev, cvss = score, version = None,
      kaiStatus = None, riskFactors = None, cve = None, description = None,
      timestamp = None, groupName = None, imageName = None\<rparr>"

definition scenarioB :: "VulnerabilityData list" where
  "scenarioB =
     [(sample ''1'' (Some ''High'') None)\<lparr>kaiStatus := Some ''invalid - norisk''\<rparr>,
      (sample ''2'' (Some ''Low'') None)\<lparr>kaiStatus := Some ''invalid - norisk''\<rparr>,
      (sample ''3'' (Some ''Unknown'') None)\<lparr>kaiStatus := Some ''ai-invalid-norisk''\<rparr>,
      (sample ''4'' (Some ''CRITICAL'') None)\<lparr>kaiStatus := Some ''needs-review''\<rparr>]"

text \<open>The conjunction of the tests of the active criteria.\<close>

definition passesAll :: "Filters \<Rightarrow> VulnerabilityData \<Rightarrow> bool" where
  "passesAll f item =
     ((activeTerm (searchTerm f) \<longrightarrow> matchesTerm (toLowerCase (the (searchTerm f))) item)
      \<and> (activeList (severities f) \<longrightarrow> severityPasses (the (severities f)) item)
      \<and> (activeList (riskFactorsF f) \<longrightarrow> riskFactorPasses (the (riskFactorsF f)) item)
      \<and> (activeList (excludeKaiStatus f) \<longrightarrow> kaiStatusPasses (the (excludeKaiStatus f)) item))"

definition riskSample :: "VulnerabilityData list" where
  "riskSample =
     [(sample ''1'' (Some ''High'') None)\<lparr>riskFactors := Some [''Has fix'', ''In use'']\<rparr>,
      (sample ''2'' (Some ''Low'') None)\<lparr>riskFactors := Some []\<rparr>,
      sample ''3'' (Some ''Low'') None,
      (sample ''4'' (Some ''Low'') None)\<lparr>riskFactors := Some [''has fix'']\<rparr>]"

text \<open>Three records of which one has no package name.\<close>

definition packageSample :: "VulnerabilityData list" where
  "packageSample =
     [(sample ''1'' None None)\<lparr>package := Some ''zlib''\<rparr>,
      sample ''2'' None None,
      (sample ''3'' None None)\<lparr>package := Some ''Apache''\<rparr>]"



section \<open>Properties of the metrics\<close>

lemmas string_eval = toLowerCase_def toLowerChar_def toUpperChar_def
  upperLetters_def lowerLetters_def smallLetters_def objectPrototypeMembers_def

lemma filter_partition3:
  assumes "a \<noteq> b"
  shows "length (filter (\<lambda>d. f d = a) xs) + length (filter (\<lambda>d. f d = b) xs)
     + length (filter (\<lambda>d. f d \<notin> set [a, b]) xs) = length xs"
  using assms by (induction xs) auto

lemma increment_buckets:
  "critical (increment key acc) = critical acc + (if key = ''critical'' then 1 else 0)"
  "high (increment key acc) = high acc + (if key = ''high'' then 1 else 0)"
  "medium (increment key acc) = medium acc + (if key = ''medium'' then 1 else 0)"
  "low (increment key acc) = low acc + (if key = ''low'' then 1 else 0)"
  by (simp_all add: increment_def)

lemma countSeverity_Some:
  assumes "severity item = Some s"
  shows "\<exists>acc'. countSeverity acc item = Inr acc'
     \<and> critical acc' = critical acc + (if severityIs ''critical'' item then 1 else 0)
     \<and> high acc' = high acc + (if severityIs ''high'' item then 1 else 0)
     \<and> medium acc' = medium acc + (if severityIs ''medium'' item then 1 else 0)
     \<and> low acc' = low acc + (if severityIs ''low'' item then 1 else 0)"
  using assms
  by (auto simp add: countSeverity_def Let_def severityIs_def increment_buckets inAcc_def)

lemma reduceSeverity_counts:
  assumes "\<forall>d\<in>set data. severity d \<noteq> None"
  shows "\<exists>acc'. reduceSeverity acc data = Inr acc'
     \<and> critical acc' = critical acc + length (filter (severityIs ''critical'') data)
     \<and> high acc' = high acc + length (filter (severityIs ''high'') data)
     \<and> medium acc' = medium acc + length (filter (severityIs ''medium'') data)
     \<and> low acc' = low acc + length (filter (severityIs ''low'') data)"
  using assms
proof (induction data arbitrary: acc)
  case Nil
  then show ?case by simp
next
  case (Cons item rest)
  then obtain s where s: "severity item = Some s" by auto
  from countSeverity_Some[OF s, of acc] obtain acc1 where
    a1: "countSeverity acc item = Inr acc1"
    and c1: "critical acc1 = critical acc + (if severityIs ''critical'' item then 1 else 0)"
    and h1: "high acc1 = high acc + (if severityIs ''high'' item then 1 else 0)"
    and m1: "medium acc1 = medium acc + (if severityIs ''medium'' item then 1 else 0)"
    and l1: "low acc1 = low acc + (if severityIs ''low'' item then 1 else 0)"
    by blast
  from Cons.prems have "\<forall>d\<in>set rest. severity d \<noteq> None" by simp
  from Cons.IH[OF this, of acc1] obtain acc2 where
    a2: "reduceSeverity acc1 rest = Inr acc2"
    and c2: "critical acc2 = critical acc1 + length (filter (severityIs ''critical'') rest)"
    and h2: "high acc2 = high acc1 + length (filter (severityIs ''high'') rest)"
    and m2: "medium acc2 = medium acc1 + length (filter (severityIs ''medium'') rest)"
    and l2: "low acc2 = low acc1 + length (filter (severityIs ''low'') rest)"
    by blast
  have "reduceSeverity acc (item # rest) = Inr acc2" using a1 a2 by simp
  moreover have "critical acc2 = critical acc + length (filter (severityIs ''critical'') (item # rest))"
    using c1 c2 by simp
  moreover have "high acc2 = high acc + length (filter (severityIs ''high'') (item # rest))"
    using h1 h2 by simp
  moreover have "medium acc2 = medium acc + length (filter (severityIs ''medium'') (item # rest))"
    using m1 m2 by simp
  moreover have "low acc2 = low acc + length (filter (severityIs ''low'') (item # rest))"
    using l1 l2 by simp
  ultimately show ?case by blast
qed

text \<open>\<open>groupBySeverity\<close> raises exactly when some record has no severity.\<close>

lemma reduceSeverity_error:
  "(\<exists>e. reduceSeverity acc data = Inl e) \<longleftrightarrow> (\<exists>d\<in>set data. severity d = None)"
proof (induction data arbitrary: acc)
  case Nil
  then show ?case by simp
next
  case (Cons item rest)
  show ?case
  proof (cases "severity item")
    case None
    then show ?thesis by (simp add: countSeverity_def)
  next
    case (Some s)
    from countSeverity_Some[OF Some, of acc] obtain acc1 where
      "countSeverity acc item = Inr acc1" by blast
    then show ?thesis using Cons.IH[of acc1] Some by simp
  qed
qed

lemma four_buckets_recognized:
  "length (filter (severityIs ''critical'') data) + length (filter (severityIs ''high'') data)
    + length (filter (severityIs ''medium'') data) + length (filter (severityIs ''low'') data)
    = length (filter recognized data)"
  by (induction data) (auto simp add: severityIs_def recognized_def split: option.splits)

lemma filter_all_iff: "length (filter P xs) = length xs \<longleftrightarrow> (\<forall>x\<in>set xs. P x)"
  by (metis filter_id_conv length_filter_less less_irrefl_nat filter_True)

lemma processVulnerabilityData_returns:
  assumes "\<forall>d\<in>set data. severity d \<noteq> None"
  shows "\<exists>m. processVulnerabilityData data = Inr m"
proof -
  from reduceSeverity_counts[OF assms] obtain acc' where
    "groupBySeverity data = Inr acc'" unfolding groupBySeverity_def by blast
  then show ?thesis by (simp add: processVulnerabilityData_def)
qed

lemmas metrics_eval = processVulnerabilityData_def groupBySeverity_def countSeverity_def
  inAcc_def increment_def calculateRiskFrequency_def sample_def scenarioB_def Let_def

text \<open>
  C1. Whenever \<open>processVulnerabilityData\<close> returns metrics, the three counts of the KAI
  status breakdown add up to \<open>total\<close>, which is the number of records: the first two
  count the records whose status is exactly \<open>invalid - norisk\<close> and exactly
  \<open>ai-invalid-norisk\<close>, and \<open>other\<close> counts every remaining record, a record without
  a status included. The function returns metrics for every dataset whose records all
  have a severity.
\<close>

theorem kaiStatusBreakdown_partition:
  "(processVulnerabilityData data = Inr m \<longrightarrow>
      invalid_norisk (kaiStatusBreakdown m) + ai_invalid_norisk (kaiStatusBreakdown m)
        + other (kaiStatusBreakdown m) = total m
      \<and> total m = length data
      \<and> invalid_norisk (kaiStatusBreakdown m)
          = length (filter (\<lambda>d. kaiStatus d = Some ''invalid - norisk'') data)
      \<and> ai_invalid_norisk (kaiStatusBreakdown m)
          = length (filter (\<lambda>d. kaiStatus d = Some ''ai-invalid-norisk'') data)
      \<and> other (kaiStatusBreakdown m)
          = length (filter (\<lambda>d. kaiStatus d \<noteq> Some ''invalid - norisk''
                                \<and> kaiStatus d \<noteq> Some ''ai-invalid-norisk'') data))
   \<and> ((\<forall>d\<in>set data. severity d \<noteq> None) \<longrightarrow> (\<exists>m'. processVulnerabilityData data = Inr m'))"
proof -
  have ne: "Some ''invalid - norisk'' \<noteq> Some ''ai-invalid-norisk''" by simp
  have part: "length (filter (\<lambda>d. kaiStatus d = Some ''invalid - norisk'') data)
      + length (filter (\<lambda>d. kaiStatus d = Some ''ai-invalid-norisk'') data)
      + length (filter (\<lambda>d. kaiStatus d \<notin> set [Some ''invalid - norisk'', Some ''ai-invalid-norisk'']) data)
      = length data"
    by (rule filter_partition3[OF ne])
  have oth: "(\<lambda>d. kaiStatus d \<notin> set [Some ''invalid - norisk'', Some ''ai-invalid-norisk''])
      = (\<lambda>d. kaiStatus d \<noteq> Some ''invalid - norisk'' \<and> kaiStatus d \<noteq> Some ''ai-invalid-norisk'')"
    by auto
  show ?thesis
    using part processVulnerabilityData_returns[of data]
    by (auto simp add: processVulnerabilityData_def oth split: sum.splits)
qed

text \<open>
  The scenario of the specification: two records tagged \<open>invalid - norisk\<close>, one tagged
  \<open>ai-invalid-norisk\<close> and one tagged \<open>needs-review\<close> give the counts 2, 1 and 1.
\<close>

theorem kaiStatusBreakdown_partition_witness:
  "\<exists>m. processVulnerabilityData scenarioB = Inr m
     \<and> kaiStatusBreakdown m = \<lparr>invalid_norisk = 2, ai_invalid_norisk = 1, other = 1\<rparr>
     \<and> total m = 4
     \<and> invalid_norisk (kaiStatusBreakdown m) + ai_invalid_norisk (kaiStatusBreakdown m)
        + other (kaiStatusBreakdown m) = total m"
proof -
  have present: "\<forall>d\<in>set scenarioB. severity d \<noteq> None"
    by (simp add: scenarioB_def sample_def)
  with kaiStatusBreakdown_partition[of scenarioB] obtain m where
    m: "processVulnerabilityData scenarioB = Inr m" by blast
  with kaiStatusBreakdown_partition[of scenarioB m] have
    "invalid_norisk (kaiStatusBreakdown m) + ai_invalid_norisk (kaiStatusBreakdown m)
        + other (kaiStatusBreakdown m) = total m" by blast
  moreover from m have "kaiStatusBreakdown m = \<lparr>invalid_norisk = 2, ai_invalid_norisk = 1, other = 1\<rparr>"
    and "total m = 4"
    by (auto simp add: metrics_eval string_eval split: sum.splits)
  ultimately show ?thesis using m by blast
qed

text \<open>
  For every dataset whose records all carry a severity string,
  \<open>processVulnerabilityData\<close> returns, each of the four counts of the severity
  distribution is the number of records whose severity matches that name without
  regard to case, their sum is at most \<open>total\<close>, and it equals \<open>total\<close> exactly when
  every record's severity is one of the four names. A record with any other severity
  string is in none of the four counts.
\<close>

lemma severityDistribution_bound:
  assumes "\<forall>d\<in>set data. severity d \<noteq> None"
  shows "\<exists>m. processVulnerabilityData data = Inr m
     \<and> total m = length data
     \<and> critical (severityDistribution m) = length (filter (severityIs ''critical'') data)
     \<and> high (severityDistribution m) = length (filter (severityIs ''high'') data)
     \<and> medium (severityDistribution m) = length (filter (severityIs ''medium'') data)
     \<and> low (severityDistribution m) = length (filter (severityIs ''low'') data)
     \<and> critical (severityDistribution m) + high (severityDistribution m)
         + medium (severityDistribution m) + low (severityDistribution m) \<le> total m
     \<and> (critical (severityDistribution m) + high (severityDistribution m)
         + medium (severityDistribution m) + low (severityDistribution m) = total m
        \<longleftrightarrow> (\<forall>d\<in>set data. recognized d))"
proof -
  from reduceSeverity_counts[OF assms, of "\<lparr>critical = 0, high = 0, medium = 0, low = 0, nanMembers = []\<rparr>"]
  obtain acc where g: "groupBySeverity data = Inr acc"
    and c: "critical acc = length (filter (severityIs ''critical'') data)"
    and h: "high acc = length (filter (severityIs ''high'') data)"
    and m: "medium acc = length (filter (severityIs ''medium'') data)"
    and l: "low acc = length (filter (severityIs ''low'') data)"
    unfolding groupBySeverity_def by auto
  obtain mt where mt: "processVulnerabilityData data = Inr mt"
    and sd: "severityDistribution mt = acc" and tot: "total mt = length data"
    using g by (simp add: processVulnerabilityData_def)
  have sum: "critical acc + high acc + medium acc + low acc = length (filter recognized data)"
    using c h m l four_buckets_recognized[of data] by simp
  have le: "critical acc + high acc + medium acc + low acc \<le> length data"
    using sum by simp
  have eq: "(critical acc + high acc + medium acc + low acc = length data)
      \<longleftrightarrow> (\<forall>d\<in>set data. recognized d)"
    using sum filter_all_iff[of recognized data] by simp
  show ?thesis using mt sd tot c h m l le eq by auto
qed

text \<open>
  On the four records of the scenario above, with the severities \<open>High\<close>, \<open>Low\<close>,
  \<open>Unknown\<close> and \<open>CRITICAL\<close>, the counts are 1, 1, 0 and 1 out of 4.
\<close>

lemma severityDistribution_scenarioB:
  "\<exists>m. processVulnerabilityData scenarioB = Inr m
     \<and> critical (severityDistribution m) = 1 \<and> high (severityDistribution m) = 1
     \<and> medium (severityDistribution m) = 0 \<and> low (severityDistribution m) = 1
     \<and> total m = 4 \<and> \<not> recognized (scenarioB ! 2)"
proof -
  have present: "\<forall>d\<in>set scenarioB. severity d \<noteq> None"
    by (simp add: scenarioB_def sample_def)
  from severityDistribution_bound[OF present] obtain m where
    m: "processVulnerabilityData scenarioB = Inr m" and t: "total m = length scenarioB"
    and c: "critical (severityDistribution m) = length (filter (severityIs ''critical'') scenarioB)"
    and h: "high (severityDistribution m) = length (filter (severityIs ''high'') scenarioB)"
    and md: "medium (severityDistribution m) = length (filter (severityIs ''medium'') scenarioB)"
    and l: "low (severityDistribution m) = length (filter (severityIs ''low'') scenarioB)"
    by blast
  have "length (filter (severityIs ''critical'') scenarioB) = 1"
    "length (filter (severityIs ''high'') scenarioB) = 1"
    "length (filter (severityIs ''medium'') scenarioB) = 0"
    "length (filter (severityIs ''low'') scenarioB) = 1"
    "length scenarioB = 4"
    "\<not> recognized (scenarioB ! 2)"
    by (simp_all add: scenarioB_def sample_def severityIs_def recognized_def string_eval)
  then show ?thesis using m t c h md l by auto
qed

text \<open>
  A severity that names an inherited member is in none of the four counts either; it
  leaves a fifth member with the value NaN in the distribution.
\<close>

lemma groupBySeverity_inherited_member:
  "groupBySeverity [sample ''1'' (Some ''Constructor'') None]
     = Inr \<lparr>critical = 0, high = 0, medium = 0, low = 0, nanMembers = [''constructor'']\<rparr>"
  by (simp add: metrics_eval string_eval)

section \<open>Properties of sorting\<close>

lemma set_insertSorted: "set (insertSorted c x ys) = insert x (set ys)"
  by (induction ys) auto

lemma mset_insertSorted: "mset (insertSorted c x ys) = add_mset x (mset ys)"
  by (induction ys) auto

lemma mset_foldl_insertSorted:
  "mset (foldl (\<lambda>sorted x. insertSorted c x sorted) acc xs) = mset acc + mset xs"
  by (induction xs arbitrary: acc) (auto simp add: mset_insertSorted)

text \<open>The sorted array holds the records of the input, each as often as the input does.\<close>

lemma mset_array_sort: "mset (array_sort c xs) = mset xs"
  by (simp add: array_sort_def mset_foldl_insertSorted)

lemma comparator_null_left:
  "field \<noteq> ''severity'' \<Longrightarrow> field \<noteq> ''riskFactorsCount'' \<Longrightarrow> nullField field a
     \<Longrightarrow> sortComparator field dir a b = Finite 1"
  by (simp add: sortComparator_def nullField_def Let_def)

lemma comparator_null_right:
  "field \<noteq> ''severity'' \<Longrightarrow> field \<noteq> ''riskFactorsCount'' \<Longrightarrow> \<not> nullField field a
     \<Longrightarrow> nullField field b \<Longrightarrow> sortComparator field dir a b = Finite (- 1)"
  by (simp add: sortComparator_def nullField_def Let_def)

text \<open>
  For every comparator, the model of \<open>sort\<close> returns an order in which every two
  neighbours are justified by a call of the comparator.
\<close>

lemma justified_insertSorted:
  "justified c ys \<Longrightarrow> justified c (insertSorted c x ys)"
proof (induction ys rule: justified.induct)
  case (1 c)
  then show ?case by simp
next
  case (2 c y)
  then show ?case by auto
next
  case (3 c y z ys)
  then show ?case by auto
qed

lemma justified_foldl:
  "justified c acc \<Longrightarrow> justified c (foldl (\<lambda>sorted x. insertSorted c x sorted) acc xs)"
  by (induction xs arbitrary: acc) (simp_all add: justified_insertSorted)

lemma justified_array_sort: "justified c (array_sort c xs)"
  unfolding array_sort_def by (rule justified_foldl) simp

text \<open>
  In any such order under the comparator of \<open>sortVulnerabilities\<close>, the records
  without the sort field come last: a record without the field in front of a record
  with it is against both calls of the comparator.
\<close>

lemma justified_nullsLast:
  assumes f: "field \<noteq> ''severity''" "field \<noteq> ''riskFactorsCount''"
  shows "justified (sortComparator field dir) ys \<Longrightarrow> nullsLast field ys"
proof (induction ys rule: induct_list012)
  case 1
  then show ?case by simp
next
  case (2 x)
  then show ?case by simp
next
  case (3 x y zs)
  have tail: "nullsLast field (y # zs)" using 3 by simp
  show ?case
  proof (cases "nullField field x")
    case False
    then show ?thesis using tail by simp
  next
    case True
    have "nullField field y"
    proof (rule ccontr)
      assume n: "\<not> nullField field y"
      have "sortComparator field dir x y = Finite 1"
        using comparator_null_left[OF f True] .
      moreover have "sortComparator field dir y x = Finite (- 1)"
        using comparator_null_right[OF f n True] .
      ultimately show False using "3.prems" by (simp add: sortCompare_def)
    qed
    then show ?thesis using tail True by simp
  qed
qed

lemma nullsLast_nth:
  "nullsLast field xs \<Longrightarrow> i < j \<Longrightarrow> j < length xs \<Longrightarrow> nullField field (xs ! i)
     \<Longrightarrow> nullField field (xs ! j)"
proof (induction xs arbitrary: i j)
  case Nil
  then show ?case by simp
next
  case (Cons x xs)
  show ?case
  proof (cases i)
    case 0
    then have "list_all (nullField field) xs" using Cons.prems by simp
    moreover obtain j' where "j = Suc j'" using Cons.prems(2) by (cases j) auto
    ultimately show ?thesis using Cons.prems(3) by (simp add: list_all_length)
  next
    case (Suc i')
    then obtain j' where j: "j = Suc j'" using Cons.prems(2) by (cases j) auto
    then show ?thesis using Cons.IH[of i' j'] Cons.prems Suc by simp
  qed
qed

lemma comparator_direction:
  assumes "\<not> nullField field a" "\<not> nullField field b"
    "field \<noteq> ''severity''" "field \<noteq> ''riskFactorsCount''"
  shows "sortCompare (sortComparator field Desc a b) = - sortCompare (sortComparator field Asc a b)"
  using assms
  by (auto simp add: sortComparator_def nullField_def Let_def sortCompare_def split: jsval.splits)

lemma comparator_direction_null:
  assumes "nullField field a \<or> nullField field b"
    "field \<noteq> ''severity''" "field \<noteq> ''riskFactorsCount''"
  shows "sortComparator field Desc a b = sortComparator field Asc a b"
  using assms
  by (auto simp add: sortComparator_def nullField_def Let_def)

lemmas sort_eval = sortVulnerabilities_def array_sort_def sortComparator_def sample_def
  severityKey_def memberLookup_def SEVERITY_ORDER_def orZero_def sortCompare_def
  getField_def isNullish_def optString_def Let_def

subsection \<open>The order of the values in the output\<close>

text \<open>For one field name, the values that are present are all strings or all numbers or neither.\<close>

lemma getField_string_kind:
  "getField field a = JString s \<Longrightarrow> \<not> nullField field b \<Longrightarrow> \<exists>t. getField field b = JString t"
  by (auto simp add: getField_def nullField_def isNullish_def optString_def
      split: if_splits option.splits)

lemma getField_number_kind:
  "getField field a = JNumber x \<Longrightarrow> \<not> nullField field b \<Longrightarrow> \<exists>y. getField field b = JNumber y"
  by (auto simp add: getField_def nullField_def isNullish_def optString_def
      split: if_splits option.splits)

lemma precedes_trans:
  assumes "precedes field dir a b" and "precedes field dir b c"
  shows "precedes field dir a c"
proof (cases "nullField field c")
  case True
  then show ?thesis by (simp add: precedes_def)
next
  case False
  with assms(2) have nb: "\<not> nullField field b" and bc: "inOrder field dir b c"
    by (simp_all add: precedes_def)
  with assms(1) have na: "\<not> nullField field a" and ab: "inOrder field dir a b"
    by (simp_all add: precedes_def)
  have "inOrder field dir a c"
  proof (cases "getField field a")
    case (JString s)
    from getField_string_kind[OF JString nb] obtain t where t: "getField field b = JString t" by blast
    from getField_string_kind[OF JString False] obtain u where u: "getField field c = JString u" by blast
    show ?thesis using ab bc JString t u by (auto simp add: inOrder_def split: if_splits)
  next
    case (JNumber x)
    from getField_number_kind[OF JNumber nb] obtain y where y: "getField field b = JNumber y" by blast
    from getField_number_kind[OF JNumber False] obtain z where z: "getField field c = JNumber z" by blast
    show ?thesis using ab bc JNumber y z by (auto simp add: inOrder_def split: if_splits)
  qed (simp_all add: inOrder_def)
  then show ?thesis using na False by (simp add: precedes_def)
qed

text \<open>What one call of the comparator says about where two records may stand.\<close>

lemma comparator_not_negative:
  assumes "field \<noteq> ''severity''" and "field \<noteq> ''riskFactorsCount''"
    and "\<not> sortCompare (sortComparator field dir x p) < 0"
  shows "precedes field dir p x"
  using assms
  by (auto simp add: sortComparator_def precedes_def inOrder_def nullField_def Let_def
      sortCompare_def split: jsval.splits if_splits)

lemma comparator_negative:
  assumes "field \<noteq> ''severity''" and "field \<noteq> ''riskFactorsCount''"
    and "sortCompare (sortComparator field dir x y) < 0"
  shows "precedes field dir x y"
  using assms
  by (auto simp add: sortComparator_def precedes_def inOrder_def nullField_def Let_def
      sortCompare_def split: jsval.splits if_splits)

lemma insertSorted_sorted_wrt:
  assumes tr: "\<And>a b c. R a b \<Longrightarrow> R b c \<Longrightarrow> R a c"
    and ge: "\<And>y. \<not> sortCompare (c x y) < 0 \<Longrightarrow> R y x"
    and lt: "\<And>y. sortCompare (c x y) < 0 \<Longrightarrow> R x y"
    and "sorted_wrt R ys"
  shows "sorted_wrt R (insertSorted c x ys)"
  using assms(4)
proof (induction ys)
  case Nil
  then show ?case by simp
next
  case (Cons y ys)
  show ?case
  proof (cases "sortCompare (c x y) < 0")
    case True
    then have xy: "R x y" by (rule lt)
    have "\<forall>z\<in>set ys. R x z" using xy Cons.prems tr by auto
    then show ?thesis using True xy Cons.prems by simp
  next
    case False
    then have "R y x" by (rule ge)
    moreover have "sorted_wrt R (insertSorted c x ys)" using Cons by simp
    ultimately show ?thesis using False Cons.prems by (auto simp add: set_insertSorted)
  qed
qed

lemma array_sort_sorted_wrt:
  assumes tr: "\<And>a b c. R a b \<Longrightarrow> R b c \<Longrightarrow> R a c"
    and ge: "\<And>x y. \<not> sortCompare (c x y) < 0 \<Longrightarrow> R y x"
    and lt: "\<And>x y. sortCompare (c x y) < 0 \<Longrightarrow> R x y"
  shows "sorted_wrt R (array_sort c xs)"
proof -
  have "sorted_wrt R acc \<Longrightarrow> sorted_wrt R (foldl (\<lambda>sorted x. insertSorted c x sorted) acc xs)"
    for acc
  proof (induction xs arbitrary: acc)
    case Nil
    then show ?case by simp
  next
    case (Cons x xs)
    have "sorted_wrt R (insertSorted c x acc)"
      using tr ge lt Cons.prems by (rule insertSorted_sorted_wrt)
    then show ?case using Cons.IH by simp
  qed
  then show ?thesis by (simp add: array_sort_def)
qed

text \<open>
  The output of \<open>sortVulnerabilities\<close> is in the order of the direction: of any two
  records the one in front has the smaller value for \<open>Asc\<close> and the larger one for
  \<open>Desc\<close>, and a record without a value is in front of no record that has one.
\<close>

lemma sortVulnerabilities_precedes:
  assumes "field \<noteq> ''severity''" and "field \<noteq> ''riskFactorsCount''"
  shows "sorted_wrt (precedes field dir) (sortVulnerabilities data field dir)"
  unfolding sortVulnerabilities_def
  by (rule array_sort_sorted_wrt)
    (blast intro: precedes_trans comparator_not_negative[OF assms] comparator_negative[OF assms])+

lemma precedes_inOrder: "precedes field dir a b \<Longrightarrow> inOrder field dir a b"
  by (auto simp add: precedes_def inOrder_def nullField_def isNullish_def split: jsval.splits)

lemma comparator_strings:
  assumes "field \<noteq> ''severity''" and "field \<noteq> ''riskFactorsCount''"
    and "getField field a = JString s" and "getField field b = JString t"
    and "toLowerCase s < toLowerCase t"
  shows "sortCompare (sortComparator field Asc a b) < 0"
    and "sortCompare (sortComparator field Desc a b) > 0"
    and "sortCompare (sortComparator field Asc b a) > 0"
    and "sortCompare (sortComparator field Desc b a) < 0"
  using assms
  by (auto simp add: sortComparator_def isNullish_def Let_def sortCompare_def)

lemma comparator_numbers:
  assumes "field \<noteq> ''severity''" and "field \<noteq> ''riskFactorsCount''"
    and "getField field a = JNumber x" and "getField field b = JNumber y"
    and "x < y"
  shows "sortCompare (sortComparator field Asc a b) < 0"
    and "sortCompare (sortComparator field Desc a b) > 0"
    and "sortCompare (sortComparator field Asc b a) > 0"
    and "sortCompare (sortComparator field Desc b a) < 0"
  using assms
  by (auto simp add: sortComparator_def isNullish_def Let_def sortCompare_def)

text \<open>
  C3. For a sort field other than \<open>severity\<close> and \<open>riskFactorsCount\<close> and for either
  direction, the output of \<open>sortVulnerabilities\<close> holds the records of the input, and
  no record whose sort field is \<open>null\<close> or \<open>undefined\<close> stands in front of a record
  that has a value there. The records that have a value stand in the order of the
  direction: strings by their lower-case forms and numbers by size, rising for \<open>Asc\<close>
  and falling for \<open>Desc\<close>. On two strings or two numbers with different keys the
  comparator is negative one way round and positive the other, with the signs swapped
  between the directions; on two records that both have a value the descending
  comparator is the negation of the ascending one; and as soon as one of the two has
  no value the comparator is the same in both directions.
\<close>

theorem sort_nulls_last:
  assumes "field \<noteq> ''severity''" and "field \<noteq> ''riskFactorsCount''"
  shows "mset (sortVulnerabilities data field dir) = mset data
    \<and> (\<forall>i j. i < j \<and> j < length (sortVulnerabilities data field dir)
          \<and> nullField field (sortVulnerabilities data field dir ! i)
          \<longrightarrow> nullField field (sortVulnerabilities data field dir ! j))
    \<and> sorted_wrt (inOrder field dir) (sortVulnerabilities data field dir)
    \<and> (\<forall>a b s t. getField field a = JString s \<and> getField field b = JString t
          \<and> toLowerCase s < toLowerCase t
          \<longrightarrow> sortCompare (sortComparator field Asc a b) < 0
              \<and> sortCompare (sortComparator field Desc a b) > 0
              \<and> sortCompare (sortComparator field Asc b a) > 0
              \<and> sortCompare (sortComparator field Desc b a) < 0)
    \<and> (\<forall>a b x y. getField field a = JNumber x \<and> getField field b = JNumber y \<and> x < y
          \<longrightarrow> sortCompare (sortComparator field Asc a b) < 0
              \<and> sortCompare (sortComparator field Desc a b) > 0
              \<and> sortCompare (sortComparator field Asc b a) > 0
              \<and> sortCompare (sortComparator field Desc b a) < 0)
    \<and> (\<forall>a b. \<not> nullField field a \<and> \<not> nullField field b
          \<longrightarrow> sortCompare (sortComparator field Desc a b)
              = - sortCompare (sortComparator field Asc a b))
    \<and> (\<forall>a b. nullField field a \<or> nullField field b
          \<longrightarrow> sortComparator field Desc a b = sortComparator field Asc a b)"
proof -
  have perm: "mset (sortVulnerabilities data field dir) = mset data"
    by (simp add: sortVulnerabilities_def mset_array_sort)
  have "nullsLast field (sortVulnerabilities data field dir)"
    unfolding sortVulnerabilities_def
    by (rule justified_nullsLast[OF assms]) (rule justified_array_sort)
  then have last: "\<forall>i j. i < j \<and> j < length (sortVulnerabilities data field dir)
          \<and> nullField field (sortVulnerabilities data field dir ! i)
          \<longrightarrow> nullField field (sortVulnerabilities data field dir ! j)"
    using nullsLast_nth by blast
  have ord: "sorted_wrt (inOrder field dir) (sortVulnerabilities data field dir)"
    using sortVulnerabilities_precedes[OF assms, of dir data]
    by (rule sorted_wrt_mono_rel[rotated]) (rule precedes_inOrder)
  have str: "\<forall>a b s t. getField field a = JString s \<and> getField field b = JString t
          \<and> toLowerCase s < toLowerCase t
          \<longrightarrow> sortCompare (sortComparator field Asc a b) < 0
              \<and> sortCompare (sortComparator field Desc a b) > 0
              \<and> sortCompare (sortComparator field Asc b a) > 0
              \<and> sortCompare (sortComparator field Desc b a) < 0"
    using comparator_strings[OF assms] by blast
  have num: "\<forall>a b x y. getField field a = JNumber x \<and> getField field b = JNumber y \<and> x < y
          \<longrightarrow> sortCompare (sortComparator field Asc a b) < 0
              \<and> sortCompare (sortComparator field Desc a b) > 0
              \<and> sortCompare (sortComparator field Asc b a) > 0
              \<and> sortCompare (sortComparator field Desc b a) < 0"
    using comparator_numbers[OF assms] by blast
  have neg: "\<forall>a b. \<not> nullField field a \<and> \<not> nullField field b
          \<longrightarrow> sortCompare (sortComparator field Desc a b)
              = - sortCompare (sortComparator field Asc a b)"
    using comparator_direction[OF _ _ assms] by blast
  have same: "\<forall>a b. nullField field a \<or> nullField field b
          \<longrightarrow> sortComparator field Desc a b = sortComparator field Asc a b"
    using comparator_direction_null[OF _ assms] by blast
  show ?thesis using perm last ord str num neg same by blast
qed

text \<open>
  Three records sorted by \<open>package\<close>: \<open>Apache\<close> comes before \<open>zlib\<close> in ascending order
  and after it in descending order, and the record without a package is last both
  times. Three records sorted by \<open>cvss\<close>: 2.0 before 9.8 ascending, 9.8 before 2.0
  descending, and the record without a score last both times.
\<close>

theorem sort_nulls_last_witness:
  "map vuln_id (sortVulnerabilities packageSample ''package'' Asc) = [''3'', ''1'', ''2'']
   \<and> map vuln_id (sortVulnerabilities packageSample ''package'' Desc) = [''1'', ''3'', ''2'']
   \<and> map vuln_id (sortVulnerabilities
      [sample ''1'' (Some ''high'') None, sample ''2'' (Some ''critical'') (Some 9.8),
       sample ''3'' (Some ''low'') (Some 2.0)] ''cvss'' Desc) = [''2'', ''3'', ''1'']
   \<and> map vuln_id (sortVulnerabilities
      [sample ''1'' (Some ''high'') None, sample ''2'' (Some ''critical'') (Some 9.8),
       sample ''3'' (Some ''low'') (Some 2.0)] ''cvss'' Asc) = [''3'', ''2'', ''1'']
   \<and> sorted_wrt (inOrder ''package'' Desc) (sortVulnerabilities packageSample ''package'' Desc)
   \<and> mset (sortVulnerabilities packageSample ''package'' Desc) = mset packageSample"
proof -
  have f: "''package'' \<noteq> ''severity''" "''package'' \<noteq> ''riskFactorsCount''" by simp_all
  have "map vuln_id (sortVulnerabilities packageSample ''package'' Asc) = [''3'', ''1'', ''2'']"
    "map vuln_id (sortVulnerabilities packageSample ''package'' Desc) = [''1'', ''3'', ''2'']"
    by (simp_all add: sort_eval string_eval packageSample_def)
  moreover have "map vuln_id (sortVulnerabilities
      [sample ''1'' (Some ''high'') None, sample ''2'' (Some ''critical'') (Some 9.8),
       sample ''3'' (Some ''low'') (Some 2.0)] ''cvss'' Desc) = [''2'', ''3'', ''1'']"
    "map vuln_id (sortVulnerabilities
      [sample ''1'' (Some ''high'') None, sample ''2'' (Some ''critical'') (Some 9.8),
       sample ''3'' (Some ''low'') (Some 2.0)] ''cvss'' Asc) = [''3'', ''2'', ''1'']"
    by (simp_all add: sort_eval)
  ultimately show ?thesis
    using sort_nulls_last[OF f, of packageSample Desc] by blast
qed

subsection \<open>Sorting by severity\<close>

lemma rank_lookup:
  "severityKey a \<notin> set objectPrototypeMembers \<Longrightarrow>
     orZero (memberLookup SEVERITY_ORDER (severityKey a)) = JNumber (severityRank a)"
  by (simp add: orZero_def memberLookup_def SEVERITY_ORDER_def severityRank_def Let_def)

lemma comparator_severity:
  assumes "severityKey a \<notin> set objectPrototypeMembers"
    and "severityKey b \<notin> set objectPrototypeMembers"
  shows "sortComparator ''severity'' dir a b =
     (if dir = Asc then Finite (severityRank a - severityRank b)
      else Finite (severityRank b - severityRank a))"
  using assms by (simp add: sortComparator_def rank_lookup Let_def)

lemma insertSorted_sorted:
  assumes "\<forall>y\<in>set ys. (sortCompare (c x y) < 0) = (k x < k y)"
    and "sorted (map k ys)"
  shows "sorted (map (k :: 'a \<Rightarrow> real) (insertSorted c x ys))"
  using assms
proof (induction ys)
  case Nil
  then show ?case by simp
next
  case (Cons y ys)
  show ?case
  proof (cases "sortCompare (c x y) < 0")
    case True
    then have "k x < k y" using Cons.prems(1) by simp
    then show ?thesis using True Cons.prems(2) by auto
  next
    case False
    then have "k y \<le> k x" using Cons.prems(1) by simp
    moreover have "sorted (map k (insertSorted c x ys))" using Cons by simp
    ultimately show ?thesis using False Cons.prems(2)
      by (auto simp add: set_insertSorted)
  qed
qed

lemma foldl_insertSorted_sorted:
  assumes "\<forall>x\<in>set acc \<union> set xs. \<forall>y\<in>set acc \<union> set xs. (sortCompare (c x y) < 0) = (k x < k y)"
    and "sorted (map k acc)"
  shows "sorted (map (k :: 'a \<Rightarrow> real) (foldl (\<lambda>sorted x. insertSorted c x sorted) acc xs))"
  using assms
proof (induction xs arbitrary: acc)
  case Nil
  then show ?case by simp
next
  case (Cons x xs)
  have "sorted (map k (insertSorted c x acc))"
    using Cons.prems by (intro insertSorted_sorted) auto
  moreover have "\<forall>a\<in>set (insertSorted c x acc) \<union> set xs.
      \<forall>b\<in>set (insertSorted c x acc) \<union> set xs. (sortCompare (c a b) < 0) = (k a < k b)"
    using Cons.prems(1) by (simp add: set_insertSorted)
  ultimately show ?case using Cons.IH[of "insertSorted c x acc"] by simp
qed

text \<open>
  As long as no severity, in lower case, is the name of a member of
  \<open>Object.prototype\<close>, sorting by \<open>severity\<close> orders the records by rank: ranks do not
  fall along the output in ascending order and do not rise in descending order.
\<close>

lemma sort_by_severityRank:
  assumes "\<forall>d\<in>set data. severityKey d \<notin> set objectPrototypeMembers"
  shows "sorted (map severityRank (sortVulnerabilities data ''severity'' Asc))"
    and "sorted (map (\<lambda>d. - severityRank d) (sortVulnerabilities data ''severity'' Desc))"
proof -
  have asc: "\<forall>x\<in>set [] \<union> set data. \<forall>y\<in>set [] \<union> set data.
      (sortCompare (sortComparator ''severity'' Asc x y) < 0) = (severityRank x < severityRank y)"
    using assms by (simp add: comparator_severity sortCompare_def)
  have desc: "\<forall>x\<in>set [] \<union> set data. \<forall>y\<in>set [] \<union> set data.
      (sortCompare (sortComparator ''severity'' Desc x y) < 0) = (- severityRank x < - severityRank y)"
    using assms by (simp add: comparator_severity sortCompare_def)
  show "sorted (map severityRank (sortVulnerabilities data ''severity'' Asc))"
    unfolding sortVulnerabilities_def array_sort_def
    by (rule foldl_insertSorted_sorted[OF asc]) simp
  show "sorted (map (\<lambda>d. - severityRank d) (sortVulnerabilities data ''severity'' Desc))"
    unfolding sortVulnerabilities_def array_sort_def
    by (rule foldl_insertSorted_sorted[OF desc]) simp
qed

text \<open>The scenario of the specification: \<open>high\<close>, \<open>critical\<close>, \<open>low\<close> in descending order.\<close>

lemma sort_scenarioA:
  "map vuln_id (sortVulnerabilities
     [sample ''1'' (Some ''high'') (Some 7.5), sample ''2'' (Some ''critical'') (Some 9.8),
      sample ''3'' (Some ''low'') (Some 2.0)] ''severity'' Desc) = [''2'', ''1'', ''3'']"
  by (simp add: sort_eval string_eval)

text \<open>
  C4. With the severity \<open>constructor\<close> the lookup \<open>SEVERITY_ORDER[\<dots>] || 0\<close> finds the
  member inherited from \<open>Object.prototype\<close> instead of 0: the comparator returns NaN,
  \<open>sort\<close> reads it as 0, and the record stays in front of a \<open>low\<close> record in
  descending order, although its rank is 0 and the rank of \<open>low\<close> is 1.
\<close>

theorem sort_severity_inherited_member:
  "map vuln_id (sortVulnerabilities
     [sample ''1'' (Some ''constructor'') None, sample ''2'' (Some ''low'') None]
     ''severity'' Desc) = [''1'', ''2'']
   \<and> sortComparator ''severity'' Desc
        (sample ''2'' (Some ''low'') None) (sample ''1'' (Some ''constructor'') None) = NaN
   \<and> sortComparator ''severity'' Desc
        (sample ''1'' (Some ''constructor'') None) (sample ''2'' (Some ''low'') None) = NaN
   \<and> severityRank (sample ''1'' (Some ''constructor'') None) = 0
   \<and> severityRank (sample ''2'' (Some ''low'') None) = 1"
  by (simp add: sort_eval string_eval severityRank_def)

subsection \<open>The worker's copy\<close>

text \<open>
  C9. The \<open>sortVulnerabilities\<close> of the sort worker and the one of the data-processing
  utilities give the same output for every array of records, every field name and
  both directions.
\<close>

theorem sortVulnerabilities_worker_eq:
  "sortVulnerabilities_worker data field dir = sortVulnerabilities data field dir"
proof -
  have "sortComparator_worker field dir = sortComparator field dir"
    by (intro ext) (simp add: sortComparator_worker_def sortComparator_def
        SEVERITY_ORDER_worker_def SEVERITY_ORDER_def)
  then show ?thesis by (simp add: sortVulnerabilities_worker_def sortVulnerabilities_def)
qed

section \<open>Properties of filtering\<close>

lemma searchStep_filter:
  "searchStep t xs = filter (\<lambda>item. activeTerm t \<longrightarrow> matchesTerm (toLowerCase (the t)) item) xs"
  by (cases t) (auto simp add: searchStep_def searchVulnerabilities_def activeTerm_def Let_def)

lemma severityStep_filter:
  "severityStep c xs = filter (\<lambda>item. activeList c \<longrightarrow> severityPasses (the c) item) xs"
  by (simp add: severityStep_def)

lemma riskFactorStep_filter:
  "riskFactorStep c xs = filter (\<lambda>item. activeList c \<longrightarrow> riskFactorPasses (the c) item) xs"
  by (simp add: riskFactorStep_def)

lemma kaiStatusStep_filter:
  "kaiStatusStep c xs = filter (\<lambda>item. activeList c \<longrightarrow> kaiStatusPasses (the c) item) xs"
  by (simp add: kaiStatusStep_def)

lemma filterVulnerabilities_filter:
  "filterVulnerabilities data f = filter (passesAll f) data"
  unfolding filterVulnerabilities_def searchStep_filter severityStep_filter
    riskFactorStep_filter kaiStatusStep_filter passesAll_def
  by (auto intro: filter_cong)

lemma length_filter_mono:
  assumes "\<And>x. Q x \<Longrightarrow> P x"
  shows "length (filter Q xs) \<le> length (filter P xs)"
  using assms by (induction xs) auto

lemma addsCriterion_passesAll:
  assumes "addsCriterion f g" and "passesAll g item"
  shows "passesAll f item"
  using assms unfolding addsCriterion_def passesAll_def by auto

text \<open>
  C5. The output of \<open>filterVulnerabilities\<close> is never longer than its input, for any
  criteria; and when a criteria object \<open>g\<close> is \<open>f\<close> with one more non-empty
  criterion, the output under \<open>g\<close> is not longer than the output under \<open>f\<close>.
\<close>

theorem filter_monotone:
  "length (filterVulnerabilities data f) \<le> length data
   \<and> (addsCriterion f g \<longrightarrow>
        length (filterVulnerabilities data g) \<le> length (filterVulnerabilities data f))"
proof -
  have "length (filterVulnerabilities data f) \<le> length data"
    by (simp add: filterVulnerabilities_filter)
  moreover have "length (filterVulnerabilities data g) \<le> length (filterVulnerabilities data f)"
    if "addsCriterion f g"
    unfolding filterVulnerabilities_filter
    by (rule length_filter_mono) (rule addsCriterion_passesAll[OF that])
  ultimately show ?thesis by blast
qed

lemmas filter_eval = filterVulnerabilities_def searchStep_def severityStep_def
  riskFactorStep_def kaiStatusStep_def activeTerm_def activeList_def severityPasses_def
  riskFactorPasses_def kaiStatusPasses_def searchVulnerabilities_def matchesTerm_def
  fieldIncludes_def sample_def scenarioB_def Let_def

text \<open>
  On the four records of the scenario, the severities \<open>Critical\<close> and \<open>High\<close> keep two
  records; excluding the status \<open>invalid - norisk\<close> as well keeps one.
\<close>

theorem filter_monotone_witness:
  "addsCriterion
     \<lparr>searchTerm = None, severities = Some [''Critical'', ''High''], riskFactorsF = None,
      excludeKaiStatus = None\<rparr>
     \<lparr>searchTerm = None, severities = Some [''Critical'', ''High''], riskFactorsF = None,
      excludeKaiStatus = Some [''invalid - norisk'']\<rparr>
   \<and> map vuln_id (filterVulnerabilities scenarioB
       \<lparr>searchTerm = None, severities = Some [''Critical'', ''High''], riskFactorsF = None,
        excludeKaiStatus = None\<rparr>) = [''1'', ''4'']
   \<and> map vuln_id (filterVulnerabilities scenarioB
       \<lparr>searchTerm = None, severities = Some [''Critical'', ''High''], riskFactorsF = None,
        excludeKaiStatus = Some [''invalid - norisk'']\<rparr>) = [''4'']
   \<and> length (filterVulnerabilities scenarioB
       \<lparr>searchTerm = None, severities = Some [''Critical'', ''High''], riskFactorsF = None,
        excludeKaiStatus = Some [''invalid - norisk'']\<rparr>)
     \<le> length (filterVulnerabilities scenarioB
       \<lparr>searchTerm = None, severities = Some [''Critical'', ''High''], riskFactorsF = None,
        excludeKaiStatus = None\<rparr>)"
proof -
  have adds: "addsCriterion
     \<lparr>searchTerm = None, severities = Some [''Critical'', ''High''], riskFactorsF = None,
      excludeKaiStatus = None\<rparr>
     \<lparr>searchTerm = None, severities = Some [''Critical'', ''High''], riskFactorsF = None,
      excludeKaiStatus = Some [''invalid - norisk'']\<rparr>"
    by (simp add: addsCriterion_def activeList_def activeTerm_def)
  from filter_monotone[of scenarioB
     "\<lparr>searchTerm = None, severities = Some [''Critical'', ''High''], riskFactorsF = None,
      excludeKaiStatus = None\<rparr>"
     "\<lparr>searchTerm = None, severities = Some [''Critical'', ''High''], riskFactorsF = None,
      excludeKaiStatus = Some [''invalid - norisk'']\<rparr>"] adds
  have le: "length (filterVulnerabilities scenarioB
       \<lparr>searchTerm = None, severities = Some [''Critical'', ''High''], riskFactorsF = None,
        excludeKaiStatus = Some [''invalid - norisk'']\<rparr>)
     \<le> length (filterVulnerabilities scenarioB
       \<lparr>searchTerm = None, severities = Some [''Critical'', ''High''], riskFactorsF = None,
        excludeKaiStatus = None\<rparr>)"
    by blast
  have "map vuln_id (filterVulnerabilities scenarioB
       \<lparr>searchTerm = None, severities = Some [''Critical'', ''High''], riskFactorsF = None,
        excludeKaiStatus = None\<rparr>) = [''1'', ''4'']"
    by (simp add: filter_eval string_eval)
  moreover have "map vuln_id (filterVulnerabilities scenarioB
       \<lparr>searchTerm = None, severities = Some [''Critical'', ''High''], riskFactorsF = None,
        excludeKaiStatus = Some [''invalid - norisk'']\<rparr>) = [''4'']"
    by (simp add: filter_eval string_eval)
  ultimately show ?thesis using adds le by blast
qed

text \<open>
  C6, as the code has it. When the requested set of risk factors is non-empty, whatever
  the other criteria are, \<open>filterVulnerabilities\<close> keeps of the records that pass the
  other criteria exactly those whose \<open>riskFactors\<close> is a non-empty array with at least
  one label in the requested set, labels being compared as they are (a label may be
  the empty string); a record whose \<open>riskFactors\<close> is absent or empty is never in the
  output; and when the requested set is empty or absent the output is the one without
  the criterion. The same holds of the step alone.
\<close>

theorem riskFactor_criterion:
  "(activeList (riskFactorsF f) \<longrightarrow>
      filterVulnerabilities data f
        = filter (\<lambda>item. \<exists>labels. riskFactors item = Some labels \<and> labels \<noteq> []
                     \<and> (\<exists>label\<in>set labels. label \<in> set (the (riskFactorsF f))))
            (filterVulnerabilities data (f\<lparr>riskFactorsF := None\<rparr>)))
   \<and> (activeList (riskFactorsF f) \<and> (riskFactors item = None \<or> riskFactors item = Some [])
        \<longrightarrow> item \<notin> set (filterVulnerabilities data f))
   \<and> (\<not> activeList (riskFactorsF f) \<longrightarrow>
        filterVulnerabilities data f = filterVulnerabilities data (f\<lparr>riskFactorsF := None\<rparr>))
   \<and> (requested \<noteq> [] \<longrightarrow>
      riskFactorStep (Some requested) data
        = filter (\<lambda>item. \<exists>labels. riskFactors item = Some labels \<and> labels \<noteq> []
                     \<and> (\<exists>label\<in>set labels. label \<in> set requested)) data)
   \<and> (requested \<noteq> [] \<and> (riskFactors item = None \<or> riskFactors item = Some [])
        \<longrightarrow> item \<notin> set (riskFactorStep (Some requested) data))
   \<and> riskFactorStep (Some []) data = data
   \<and> riskFactorStep None data = data
   \<and> filterVulnerabilities data
        \<lparr>searchTerm = None, severities = None, riskFactorsF = c, excludeKaiStatus = None\<rparr>
      = riskFactorStep c data"
proof -
  have pass: "riskFactorPasses req x
      = (\<exists>labels. riskFactors x = Some labels \<and> labels \<noteq> []
           \<and> (\<exists>label\<in>set labels. label \<in> set req))" for x req
    by (cases "riskFactors x") (auto simp add: riskFactorPasses_def list_ex_iff)
  have off: "passesAll (f\<lparr>riskFactorsF := None\<rparr>) x
      = ((activeTerm (searchTerm f) \<longrightarrow> matchesTerm (toLowerCase (the (searchTerm f))) x)
         \<and> (activeList (severities f) \<longrightarrow> severityPasses (the (severities f)) x)
         \<and> (activeList (excludeKaiStatus f) \<longrightarrow> kaiStatusPasses (the (excludeKaiStatus f)) x))"
    for x
    by (simp add: passesAll_def activeList_def)
  have on_x: "passesAll f x
      = (passesAll (f\<lparr>riskFactorsF := None\<rparr>) x \<and> riskFactorPasses (the (riskFactorsF f)) x)"
    if "activeList (riskFactorsF f)" for x
    unfolding off using that by (auto simp add: passesAll_def)
  have off_x: "passesAll f x = passesAll (f\<lparr>riskFactorsF := None\<rparr>) x"
    if "\<not> activeList (riskFactorsF f)" for x
    unfolding off using that by (auto simp add: passesAll_def)
  have all_on: "filterVulnerabilities data f
        = filter (\<lambda>item. \<exists>labels. riskFactors item = Some labels \<and> labels \<noteq> []
                     \<and> (\<exists>label\<in>set labels. label \<in> set (the (riskFactorsF f))))
            (filterVulnerabilities data (f\<lparr>riskFactorsF := None\<rparr>))"
    if "activeList (riskFactorsF f)"
    unfolding filterVulnerabilities_filter filter_filter
    by (rule filter_cong[OF refl]) (auto simp add: on_x[OF that] pass)
  have all_never: "item \<notin> set (filterVulnerabilities data f)"
    if "activeList (riskFactorsF f) \<and> (riskFactors item = None \<or> riskFactors item = Some [])"
    using that by (auto simp add: filterVulnerabilities_filter passesAll_def riskFactorPasses_def)
  have all_off: "filterVulnerabilities data f = filterVulnerabilities data (f\<lparr>riskFactorsF := None\<rparr>)"
    if "\<not> activeList (riskFactorsF f)"
    unfolding filterVulnerabilities_filter
    by (rule filter_cong[OF refl]) (simp add: off_x[OF that])
  have step_on: "riskFactorStep (Some requested) data
        = filter (\<lambda>item. \<exists>labels. riskFactors item = Some labels \<and> labels \<noteq> []
                     \<and> (\<exists>label\<in>set labels. label \<in> set requested)) data"
    if "requested \<noteq> []"
    using that by (simp add: riskFactorStep_def activeList_def pass cong: filter_cong)
  have step_never: "item \<notin> set (riskFactorStep (Some requested) data)"
    if "requested \<noteq> [] \<and> (riskFactors item = None \<or> riskFactors item = Some [])"
    using that by (auto simp add: riskFactorStep_def activeList_def riskFactorPasses_def)
  have step_off: "riskFactorStep (Some []) data = data" "riskFactorStep None data = data"
    by (simp_all add: riskFactorStep_def activeList_def)
  have alone: "filterVulnerabilities data
        \<lparr>searchTerm = None, severities = None, riskFactorsF = c, excludeKaiStatus = None\<rparr>
      = riskFactorStep c data"
    by (simp add: filterVulnerabilities_def searchStep_def severityStep_def kaiStatusStep_def
        activeTerm_def activeList_def)
  show ?thesis
    using all_on all_never all_off step_on step_never step_off alone by blast
qed

text \<open>
  Of four records, with the severities \<open>High\<close> and \<open>Low\<close> requested as well, only the one
  with the label \<open>Has fix\<close> passes when that label is requested: an empty array, an
  absent field and the label in another case do not. Without the risk-factor
  criterion all four pass.
\<close>

theorem riskFactor_criterion_witness:
  "map vuln_id (filterVulnerabilities riskSample
      \<lparr>searchTerm = None, severities = Some [''High'', ''Low''],
       riskFactorsF = Some [''Has fix''], excludeKaiStatus = None\<rparr>) = [''1'']
   \<and> map vuln_id (filterVulnerabilities riskSample
      \<lparr>searchTerm = None, severities = Some [''High'', ''Low''],
       riskFactorsF = None, excludeKaiStatus = None\<rparr>) = [''1'', ''2'', ''3'', ''4'']
   \<and> sample ''3'' (Some ''Low'') None \<notin> set (filterVulnerabilities riskSample
      \<lparr>searchTerm = None, severities = Some [''High'', ''Low''],
       riskFactorsF = Some [''Has fix''], excludeKaiStatus = None\<rparr>)
   \<and> map vuln_id (riskFactorStep (Some [''Has fix'']) riskSample) = [''1'']"
proof -
  have on: "activeList (riskFactorsF \<lparr>searchTerm = None, severities = Some [''High'', ''Low''],
       riskFactorsF = Some [''Has fix''], excludeKaiStatus = None\<rparr>)"
    by (simp add: activeList_def)
  have absent: "riskFactors (sample ''3'' (Some ''Low'') None) = None" by (simp add: sample_def)
  have "map vuln_id (filterVulnerabilities riskSample
      \<lparr>searchTerm = None, severities = Some [''High'', ''Low''],
       riskFactorsF = Some [''Has fix''], excludeKaiStatus = None\<rparr>) = [''1'']"
    "map vuln_id (filterVulnerabilities riskSample
      \<lparr>searchTerm = None, severities = Some [''High'', ''Low''],
       riskFactorsF = None, excludeKaiStatus = None\<rparr>) = [''1'', ''2'', ''3'', ''4'']"
    "map vuln_id (riskFactorStep (Some [''Has fix'']) riskSample) = [''1'']"
    by (simp_all add: filter_eval string_eval riskSample_def)
  then show ?thesis
    using riskFactor_criterion[of
        "\<lparr>searchTerm = None, severities = Some [''High'', ''Low''],
          riskFactorsF = Some [''Has fix''], excludeKaiStatus = None\<rparr>"
        riskSample "sample ''3'' (Some ''Low'') None"] on absent
    by blast
qed

text \<open>
  A record whose only label is the empty string has no non-empty label (its labels
  put together are the empty string), and it passes when the empty string is requested.
\<close>

theorem riskFactor_empty_label_counterexample:
  "filterVulnerabilities [(sample ''1'' None None)\<lparr>riskFactors := Some ['''']\<rparr>]
     \<lparr>searchTerm = None, severities = None, riskFactorsF = Some [''''],
      excludeKaiStatus = None\<rparr>
   = [(sample ''1'' None None)\<lparr>riskFactors := Some ['''']\<rparr>]
   \<and> concat [''''] = ''''"
  by (simp add: filter_eval)

subsection \<open>A record without a severity\<close>

text \<open>
  C2. The claim is that no error is raised for any record. A record without a severity,
  which the loader emits for a source object that has none, makes \<open>groupBySeverity\<close>
  and with it \<open>processVulnerabilityData\<close> raise a TypeError, because
  \<open>item.severity.toLowerCase()\<close> has no \<open>?.\<close> there. Sorting, searching and filtering
  read the severity through \<open>?.\<close> and take the same record without an error.
\<close>

theorem groupBySeverity_missing_severity:
  "groupBySeverity [sample ''1'' None None] = Inl TypeError
   \<and> processVulnerabilityData [sample ''1'' None None] = Inl TypeError
   \<and> sortVulnerabilities [sample ''1'' None None] ''severity'' Asc = [sample ''1'' None None]
   \<and> searchVulnerabilities [sample ''1'' None None] ''high'' = []
   \<and> filterVulnerabilities [sample ''1'' None None]
        \<lparr>searchTerm = None, severities = Some [''High''], riskFactorsF = None,
         excludeKaiStatus = None\<rparr> = []"
  by (simp add: metrics_eval sort_eval filter_eval string_eval)

section \<open>Arguments are not written\<close>

text \<open>
  What one \<open>filter\<close> step does to the store: with the step switched on, the result is
  a new array that holds the filtered records; switched off, nothing happens.
\<close>

lemma filter_step_frame:
  assumes "r < length h"
    and "(if on then array_filter_ref p r h else (r, h)) = (r', h')"
  shows "r' < length h'" and "take (length h) h' = h" and "length h \<le> length h'"
    and "h' ! r' = (if on then filter p (h ! r) else h ! r)"
    and "on \<longrightarrow> length h \<le> r'" and "\<not> on \<longrightarrow> r' = r \<and> h' = h"
  using assms by (auto simp add: array_filter_ref_def alloc_def split: if_splits)

lemma take_take_store:
  assumes "take (length h1) h2 = h1" and "take (length h) h1 = (h :: store)"
    and "length h \<le> length h1"
  shows "take (length h) h2 = h"
  by (metis assms min.absorb_iff2 take_take min.commute)

lemma take_nth_store:
  assumes "take (length h) h' = (h :: store)" and "r < length h"
  shows "h' ! r = h ! r"
  by (metis assms nth_take)

lemma searchVulnerabilities_ref_active:
  assumes "activeTerm t"
  shows "searchVulnerabilities_ref data (the t) h
     = array_filter_ref (matchesTerm (toLowerCase (the t))) data h"
  using assms by (cases t) (simp_all add: activeTerm_def searchVulnerabilities_ref_def)

lemma searchStep_active:
  "searchStep t xs = (if activeTerm t then filter (matchesTerm (toLowerCase (the t))) xs else xs)"
  by (cases t) (simp_all add: searchStep_def activeTerm_def searchVulnerabilities_def)

lemma filterVulnerabilities_ref_frame:
  assumes d: "data < length h"
    and res: "filterVulnerabilities_ref data filters h = (r, h')"
  shows "take (length h) h' = h" and "h' ! data = h ! data"
    and "h' ! r = filterVulnerabilities (h ! data) filters"
    and "anyCriterion filters \<longrightarrow> length h \<le> r"
    and "\<not> anyCriterion filters \<longrightarrow> r = data \<and> h' = h"
proof -
  obtain r1 h1 where s1: "(if activeTerm (searchTerm filters)
      then searchVulnerabilities_ref data (the (searchTerm filters)) h
      else (data, h)) = (r1, h1)"
    by (metis surj_pair)
  obtain r2 h2 where s2: "(if activeList (severities filters)
      then array_filter_ref (severityPasses (the (severities filters))) r1 h1
      else (r1, h1)) = (r2, h2)"
    by (metis surj_pair)
  obtain r3 h3 where s3: "(if activeList (riskFactorsF filters)
      then array_filter_ref (riskFactorPasses (the (riskFactorsF filters))) r2 h2
      else (r2, h2)) = (r3, h3)"
    by (metis surj_pair)
  obtain r4 h4 where s4: "(if activeList (excludeKaiStatus filters)
      then array_filter_ref (kaiStatusPasses (the (excludeKaiStatus filters))) r3 h3
      else (r3, h3)) = (r4, h4)"
    by (metis surj_pair)
  have "filterVulnerabilities_ref data filters h = (r4, h4)"
    unfolding filterVulnerabilities_ref_def Let_def s1 prod.case s2 s3 s4 ..
  then have r: "r = r4" and h': "h' = h4" using res by simp_all
  have s1': "(if activeTerm (searchTerm filters)
      then array_filter_ref (matchesTerm (toLowerCase (the (searchTerm filters)))) data h
      else (data, h)) = (r1, h1)"
    using s1 by (simp add: searchVulnerabilities_ref_active split: if_splits)
  note f1 = filter_step_frame[OF d s1']
  note f2 = filter_step_frame[OF f1(1) s2]
  note f3 = filter_step_frame[OF f2(1) s3]
  note f4 = filter_step_frame[OF f3(1) s4]
  have t2: "take (length h) h2 = h" using take_take_store[OF f2(2) f1(2) f1(3)] .
  have l2: "length h \<le> length h2" using f1(3) f2(3) by simp
  have t3: "take (length h) h3 = h" using take_take_store[OF f3(2) t2 l2] .
  have l3: "length h \<le> length h3" using l2 f3(3) by simp
  have t4: "take (length h) h4 = h" using take_take_store[OF f4(2) t3 l3] .
  show "take (length h) h' = h" using t4 h' by simp
  then show "h' ! data = h ! data" using take_nth_store d by blast
  show "h' ! r = filterVulnerabilities (h ! data) filters"
    unfolding r h' f4(4) f3(4) f2(4) f1(4) filterVulnerabilities_def
      searchStep_active severityStep_def riskFactorStep_def kaiStatusStep_def
    by simp
  show "anyCriterion filters \<longrightarrow> length h \<le> r"
    unfolding r anyCriterion_def
    using f1(3,5,6) f2(3,5,6) f3(3,5,6) f4(3,5,6) by (metis le_trans)
  show "\<not> anyCriterion filters \<longrightarrow> r = data \<and> h' = h"
    unfolding r h' anyCriterion_def
    using f1(6) f2(6) f3(6) f4(6) by simp
qed

lemma sortVulnerabilities_ref_frame:
  assumes d: "data < length h"
    and res: "sortVulnerabilities_ref data field dir h = (r, h')"
  shows "r = length h" and "take (length h) h' = h" and "h' ! data = h ! data"
    and "h' ! r = sortVulnerabilities (h ! data) field dir"
proof -
  have h': "h' = (h @ [h ! data])[length h := array_sort (sortComparator field dir) (h ! data)]"
    and r: "r = length h"
    using res by (auto simp add: sortVulnerabilities_ref_def alloc_def array_sort_ref_def)
  show "r = length h" by (rule r)
  show "take (length h) h' = h" by (simp add: h')
  show "h' ! data = h ! data" using d by (simp add: h' nth_append)
  show "h' ! r = sortVulnerabilities (h ! data) field dir"
    by (simp add: h' r sortVulnerabilities_def)
qed

text \<open>
  C7, as the code has it. Neither function writes its argument: after the call the
  input array holds the records it held, in their order, and so does every other
  array that existed before. \<open>sortVulnerabilities\<close> returns a new array with the
  sorted records. \<open>filterVulnerabilities\<close> returns a new array with the filtered
  records when at least one criterion is active; when none is, it returns the
  input array itself and makes no array.
\<close>

theorem arguments_not_mutated:
  assumes "data < length h"
  shows "(case sortVulnerabilities_ref data field dir h of
            (r, h') \<Rightarrow> h' ! data = h ! data \<and> take (length h) h' = h \<and> r = length h
                     \<and> h' ! r = sortVulnerabilities (h ! data) field dir)
       \<and> (case filterVulnerabilities_ref data filters h of
            (r, h') \<Rightarrow> h' ! data = h ! data \<and> take (length h) h' = h
                     \<and> h' ! r = filterVulnerabilities (h ! data) filters
                     \<and> (anyCriterion filters \<longrightarrow> length h \<le> r)
                     \<and> (\<not> anyCriterion filters \<longrightarrow> r = data \<and> h' = h))"
proof -
  obtain rs hs where s: "sortVulnerabilities_ref data field dir h = (rs, hs)"
    by (metis surj_pair)
  obtain rf hf where f: "filterVulnerabilities_ref data filters h = (rf, hf)"
    by (metis surj_pair)
  show ?thesis
    using sortVulnerabilities_ref_frame[OF assms s] filterVulnerabilities_ref_frame[OF assms f]
    by (simp add: s f)
qed

lemmas store_eval = sortVulnerabilities_ref_def filterVulnerabilities_ref_def
  searchVulnerabilities_ref_def array_filter_ref_def array_sort_ref_def alloc_def
  anyCriterion_def

text \<open>
  A store with one array, the four records of the scenario: sorting it and filtering
  it by severity both leave it as it was and return the new array 1.
\<close>

theorem arguments_not_mutated_witness:
  "(case sortVulnerabilities_ref 0 ''cvss'' Desc [scenarioB] of
      (r, h') \<Rightarrow> h' ! 0 = scenarioB \<and> r = 1)
   \<and> (case filterVulnerabilities_ref 0
        \<lparr>searchTerm = None, severities = Some [''Critical'', ''High''], riskFactorsF = None,
         excludeKaiStatus = None\<rparr> [scenarioB] of
      (r, h') \<Rightarrow> h' ! 0 = scenarioB \<and> r = 1 \<and> map vuln_id (h' ! r) = [''1'', ''4''])"
proof -
  have valid: "0 < length [scenarioB]" by simp
  have crit: "anyCriterion \<lparr>searchTerm = None, severities = Some [''Critical'', ''High''],
      riskFactorsF = None, excludeKaiStatus = None\<rparr>"
    by (simp add: anyCriterion_def activeList_def)
  have out: "map vuln_id (filterVulnerabilities scenarioB
       \<lparr>searchTerm = None, severities = Some [''Critical'', ''High''], riskFactorsF = None,
        excludeKaiStatus = None\<rparr>) = [''1'', ''4'']"
    by (simp add: filter_eval string_eval)
  have new: "fst (filterVulnerabilities_ref 0
        \<lparr>searchTerm = None, severities = Some [''Critical'', ''High''], riskFactorsF = None,
         excludeKaiStatus = None\<rparr> [scenarioB]) = 1"
    by (simp add: store_eval activeTerm_def activeList_def)
  show ?thesis
    using arguments_not_mutated[OF valid, of "''cvss''" Desc
        "\<lparr>searchTerm = None, severities = Some [''Critical'', ''High''], riskFactorsF = None,
          excludeKaiStatus = None\<rparr>"] crit out new
    by (auto split: prod.splits)
qed

text \<open>
  With no active criterion \<open>filterVulnerabilities\<close> returns the very array it was
  given, not a new one.
\<close>

theorem filter_returns_argument_counterexample:
  "filterVulnerabilities_ref 0
     \<lparr>searchTerm = None, severities = Some [], riskFactorsF = None, excludeKaiStatus = None\<rparr>
     [scenarioB] = (0, [scenarioB])"
  by (simp add: store_eval activeTerm_def activeList_def)

section \<open>The comparison list has no identifier twice\<close>

lemma find_None_id:
  "(find (\<lambda>v. vuln_id v = i) xs = None) = (i \<notin> set (map vuln_id xs))"
  by (auto simp add: find_None_iff)

lemma handleEvent_distinct:
  assumes "distinct (map vuln_id comparisonList)"
  shows "distinct (map vuln_id (handleEvent comparisonList e))"
proof (cases e)
  case (AddToComparison item)
  then show ?thesis
    using assms by (simp add: handleAddToComparison_def find_None_id)
next
  case (RemoveFromComparison ident)
  then show ?thesis
    using assms by (simp add: handleRemoveFromComparison_def distinct_map_filter)
next
  case ClearComparison
  then show ?thesis by (simp add: handleClearComparison_def)
qed

lemma foldl_handleEvent_distinct:
  "distinct (map vuln_id s) \<Longrightarrow> distinct (map vuln_id (foldl handleEvent s events))"
  by (induction events arbitrary: s) (simp_all add: handleEvent_distinct)

text \<open>
  C10. After any sequence of add, remove and clear events, starting from the empty
  list, the identifiers in the comparison list are pairwise distinct; adding a record
  whose identifier is in the list leaves the list as it is.
\<close>

theorem comparison_ids_distinct:
  "distinct (map vuln_id (comparisonAfter events))
   \<and> (vuln_id item \<in> set (map vuln_id (comparisonAfter events))
        \<longrightarrow> handleAddToComparison item (comparisonAfter events) = comparisonAfter events)"
proof -
  have "distinct (map vuln_id (comparisonAfter events))"
    unfolding comparisonAfter_def by (rule foldl_handleEvent_distinct) simp
  moreover have "handleAddToComparison item (comparisonAfter events) = comparisonAfter events"
    if "vuln_id item \<in> set (map vuln_id (comparisonAfter events))"
    using that by (simp add: handleAddToComparison_def find_None_id)
  ultimately show ?thesis by blast
qed

text \<open>
  Adding record 1, record 2 and record 1 again, with another score, then removing 2:
  the list holds the first record 1 only.
\<close>

theorem comparison_ids_distinct_witness:
  "comparisonAfter
     [AddToComparison (sample ''1'' (Some ''High'') None),
      AddToComparison (sample ''2'' (Some ''Low'') None),
      AddToComparison (sample ''1'' (Some ''High'') (Some 5)),
      RemoveFromComparison ''2'']
   = [sample ''1'' (Some ''High'') None]
   \<and> distinct (map vuln_id (comparisonAfter
     [AddToComparison (sample ''1'' (Some ''High'') None),
      AddToComparison (sample ''2'' (Some ''Low'') None),
      AddToComparison (sample ''1'' (Some ''High'') (Some 5)),
      RemoveFromComparison ''2'']))
   \<and> handleAddToComparison (sample ''1'' (Some ''Low'') None) (comparisonAfter
     [AddToComparison (sample ''1'' (Some ''High'') None),
      AddToComparison (sample ''2'' (Some ''Low'') None),
      AddToComparison (sample ''1'' (Some ''High'') (Some 5)),
      RemoveFromComparison ''2''])
     = [sample ''1'' (Some ''High'') None]"
proof -
  have run: "comparisonAfter
     [AddToComparison (sample ''1'' (Some ''High'') None),
      AddToComparison (sample ''2'' (Some ''Low'') None),
      AddToComparison (sample ''1'' (Some ''High'') (Some 5)),
      RemoveFromComparison ''2'']
   = [sample ''1'' (Some ''High'') None]"
    by (simp add: comparisonAfter_def handleAddToComparison_def handleRemoveFromComparison_def
        sample_def)
  have present: "vuln_id (sample ''1'' (Some ''Low'') None)
      \<in> set (map vuln_id [sample ''1'' (Some ''High'') None])"
    by (simp add: sample_def)
  show ?thesis
    using comparison_ids_distinct[of
        "[AddToComparison (sample ''1'' (Some ''High'') None),
          AddToComparison (sample ''2'' (Some ''Low'') None),
          AddToComparison (sample ''1'' (Some ''High'') (Some 5)),
          RemoveFromComparison ''2'']" "sample ''1'' (Some ''Low'') None"]
      present
    unfolding run by simp
qed

section \<open>Normalizing records that are already normal\<close>























end
